theory Spec2Isabelle
  imports Complex_Main "HOL-Library.Sublist" "HOL-Library.AList"
begin

section \<open>JavaScript values\<close>

text \<open>
  Request bodies, query parameters and Firestore documents are JavaScript values. An object
  is an association list of its own properties; reading a property that is not there gives
  \<open>undefined\<close>, as in JavaScript. A string is the list of the bytes of its UTF-8 form:
  being a prefix, a suffix or a part of a string, and splitting at an ASCII character, are
  then what they are on the JavaScript string.
\<close>

datatype jsval =
    JUndefined
  | JNull
  | JBool bool
  | JNum rat
  | JStr string
  | JArr "jsval list"
  | JObj "(string \<times> jsval) list"

datatype exn = Error string | TypeError string

fun message :: "exn \<Rightarrow> string" where
  "message (Error m) = m"
| "message (TypeError m) = m"

fun truthy :: "jsval \<Rightarrow> bool" where
  "truthy JUndefined = False"
| "truthy JNull = False"
| "truthy (JBool b) = b"
| "truthy (JNum n) = (n \<noteq> 0)"
| "truthy (JStr s) = (s \<noteq> [])"
| "truthy (JArr xs) = True"
| "truthy (JObj kvs) = True"

definition ownProp :: "(string \<times> jsval) list \<Rightarrow> string \<Rightarrow> jsval" where
  "ownProp kvs k = (case map_of kvs k of None \<Rightarrow> JUndefined | Some v \<Rightarrow> v)"

fun getProp :: "jsval \<Rightarrow> string \<Rightarrow> jsval" where
  "getProp (JObj kvs) k = ownProp kvs k"
| "getProp v k = JUndefined"

section \<open>Strings\<close>

definition upperLetters :: string where
  "upperLetters = ''ABCDEFGHIJKLMNOPQRSTUVWXYZ''"

definition lowerLetters :: string where
  "lowerLetters = ''abcdefghijklmnopqrstuvwxyz''"

definition digits :: string where
  "digits = ''0123456789''"

text \<open>The small form of the ASCII capital letters; every other character as it is.\<close>

definition asciiLowerChar :: "char \<Rightarrow> char" where
  "asciiLowerChar c = (case map_of (zip upperLetters lowerLetters) c of None \<Rightarrow> c | Some l \<Rightarrow> l)"

definition asciiLowerCase :: "string \<Rightarrow> string" where
  "asciiLowerCase s = map asciiLowerChar s"

text \<open>
  \<open>String.prototype.toLowerCase\<close> follows the case tables of Unicode, which are no part of
  the program: \<open>lowerCase\<close> stands for it, on every string but the empty one, which is its
  own lower case.
\<close>

definition toLowerCase :: "(string \<Rightarrow> string) \<Rightarrow> string \<Rightarrow> string" where
  "toLowerCase lowerCase s = (if s = [] then [] else lowerCase s)"

fun startsWith :: "string \<Rightarrow> string \<Rightarrow> bool" where
  "startsWith s [] = True"
| "startsWith [] (c # cs) = False"
| "startsWith (x # xs) (c # cs) = (x = c \<and> startsWith xs cs)"

definition endsWith :: "string \<Rightarrow> string \<Rightarrow> bool" where
  "endsWith s t = startsWith (rev s) (rev t)"

fun str_includes :: "string \<Rightarrow> string \<Rightarrow> bool" where
  "str_includes [] t = (t = [])"
| "str_includes (x # xs) t = (startsWith (x # xs) t \<or> str_includes xs t)"

text \<open>\<open>s.split(c)\<close> for a one-character separator: never the empty list.\<close>

fun str_split :: "char \<Rightarrow> string \<Rightarrow> string list" where
  "str_split c [] = [[]]"
| "str_split c (x # xs) =
     (if x = c then [] # str_split c xs
      else (case str_split c xs of
              [] \<Rightarrow> [[x]]
            | y # ys \<Rightarrow> (x # y) # ys))"

definition isDigit :: "char \<Rightarrow> bool" where
  "isDigit c = (c \<in> set digits)"

definition isAlnum :: "char \<Rightarrow> bool" where
  "isAlnum c = (c \<in> set (lowerLetters @ upperLetters @ digits))"

section \<open>Paths (Node's \<open>path\<close> module, POSIX flavour)\<close>

definition stripTrailingSlashes :: "string \<Rightarrow> string" where
  "stripTrailingSlashes p = rev (dropWhile (\<lambda>c. c = CHR ''/'') (rev p))"

definition basename :: "string \<Rightarrow> string" where
  "basename p = rev (takeWhile (\<lambda>c. c \<noteq> CHR ''/'') (rev (stripTrailingSlashes p)))"

text \<open>
  \<open>path.extname\<close>: from the last dot of the last path portion to its end; empty when there
  is no dot, when the only dot is the first character, and for \<open>..\<close>.
\<close>

definition extname :: "string \<Rightarrow> string" where
  "extname p =
     (let b = basename p;
          after = takeWhile (\<lambda>c. c \<noteq> CHR ''.'') (rev b)
      in if CHR ''.'' \<notin> set b then []
         else if Suc (length after) = length b then []
         else if b = ''..'' then []
         else drop (length b - Suc (length after)) b)"

text \<open>\<open>path.parse(p).name\<close>: the last portion without its extension.\<close>

definition parse_name :: "string \<Rightarrow> string" where
  "parse_name p = (let b = basename p in take (length b - length (extname p)) b)"

text \<open>
  \<open>path.basename(p, ext)\<close>: the last portion, with \<open>ext\<close> removed when the portion ends
  with it and is not \<open>ext\<close> itself.
\<close>

definition basename_ext :: "string \<Rightarrow> string \<Rightarrow> string" where
  "basename_ext p ext =
     (if ext \<noteq> [] \<and> length ext \<le> length p then
        (if ext = p then []
         else (let b = basename p
               in if endsWith b ext \<and> b \<noteq> ext then take (length b - length ext) b else b))
      else basename p)"

section \<open>The stores\<close>

text \<open>
  A Firestore collection is the list of its documents (id and data) in the order a query
  iterates them; the storage bucket is the list of its object names in listing order.
\<close>

record world =
  businessDocs :: "(string \<times> jsval) list"
  postDocs :: "(string \<times> jsval) list"
  bucket :: "string list"

text \<open>\<open>bucket.getFiles({ prefix })\<close>\<close>

definition getFiles :: "string \<Rightarrow> world \<Rightarrow> string list" where
  "getFiles pfx w = filter (\<lambda>name. startsWith name pfx) (bucket w)"

section \<open>storage-utils.js\<close>

definition notFoundMessage :: string where
  "notFoundMessage = ''The requested resources could not be found.''"

text \<open>
  \<open>deleteError name\<close> is the message with which the store rejects the deletion of that
  object, if it does. All deletions are started; those that succeed take effect even when
  another one is rejected.
\<close>

definition deleteFilesInFolder ::
    "(string \<Rightarrow> string option) \<Rightarrow> string \<Rightarrow> world \<Rightarrow> (exn + bool) \<times> world" where
  "deleteFilesInFolder deleteError folderPath w =
     (let files = getFiles folderPath w;
          w' = w\<lparr>bucket := filter (\<lambda>name. \<not> (name \<in> set files \<and> deleteError name = None))
                              (bucket w)\<rparr>
      in case List.map_filter deleteError files of
           [] \<Rightarrow> (Inr True, w')
         | m # _ \<Rightarrow> (Inl (Error m), w'))"

definition getFileURLWithSuffix ::
    "(string \<Rightarrow> exn + string) \<Rightarrow> string \<Rightarrow> string \<Rightarrow> world \<Rightarrow> exn + string" where
  "getFileURLWithSuffix getSignedUrl folderPath sfx w =
     (let files = getFiles folderPath w
      in case List.find (\<lambda>name. endsWith (parse_name name) sfx) files of
           Some name \<Rightarrow>
             (case getSignedUrl name of
                Inr fileURL \<Rightarrow> Inr fileURL
              | Inl e \<Rightarrow> Inl (Error (message e)))
         | None \<Rightarrow> Inl (Error notFoundMessage))"

text \<open>
  \<open>localFile\<close> tells whether the local path can be read. An upload to an existing name
  replaces that object; a new object is listed last.
\<close>

definition uploadFileToFolder ::
    "(string \<Rightarrow> bool) \<Rightarrow> (string \<Rightarrow> exn + string) \<Rightarrow> string \<Rightarrow> string \<Rightarrow> string \<Rightarrow> world
      \<Rightarrow> (exn + string) \<times> world" where
  "uploadFileToFolder localFile getSignedUrl folderPath localFilePath remoteFileName w =
     (let remoteFilePath = folderPath @ ''/'' @ remoteFileName
      in if \<not> localFile localFilePath then (Inl (Error ''ENOENT''), w)
         else
           (let w' = (if remoteFilePath \<in> set (bucket w) then w
                      else w\<lparr>bucket := bucket w @ [remoteFilePath]\<rparr>)
            in case getSignedUrl remoteFilePath of
                 Inr file \<Rightarrow> (Inr file, w')
               | Inl e \<Rightarrow> (Inl (Error (message e)), w')))"

definition findFeatImageFile :: "string \<Rightarrow> world \<Rightarrow> exn + string" where
  "findFeatImageFile folderPath w =
     (let files = getFiles folderPath w
      in case List.find (\<lambda>name. endsWith (basename_ext name (extname name)) ''-feat'') files of
           None \<Rightarrow> Inl (Error notFoundMessage)
         | Some featImage \<Rightarrow> Inr featImage)"

section \<open>Joi schemas\<close>

text \<open>
  The checks of the joi library (version 17, default options) that the validators use. A
  schema is the predicate "the value validates without error". A value that is not there
  (\<open>undefined\<close>) passes every schema that is not \<open>required()\<close>; values are converted
  before they are checked, so the strings \<open>true\<close> and \<open>false\<close> in any letter case count as
  booleans; an object must not carry keys outside its schema; an array must not hold
  \<open>undefined\<close> items.
\<close>

definition required :: "(jsval \<Rightarrow> bool) \<Rightarrow> jsval \<Rightarrow> bool" where
  "required schema v = (v \<noteq> JUndefined \<and> schema v)"

definition allow :: "jsval list \<Rightarrow> (jsval \<Rightarrow> bool) \<Rightarrow> jsval \<Rightarrow> bool" where
  "allow vs schema v = (v \<in> set vs \<or> schema v)"

text \<open>\<open>joi.string()\<close> followed by rules on the string: the empty string is an error.\<close>

definition joi_string_with :: "(string \<Rightarrow> bool) \<Rightarrow> jsval \<Rightarrow> bool" where
  "joi_string_with rules v =
     (case v of JUndefined \<Rightarrow> True | JStr s \<Rightarrow> s \<noteq> [] \<and> rules s | _ \<Rightarrow> False)"

definition joi_string :: "jsval \<Rightarrow> bool" where
  "joi_string = joi_string_with (\<lambda>s. True)"

definition alphanum :: "string \<Rightarrow> bool" where
  "alphanum s = (s \<noteq> [] \<and> list_all isAlnum s)"

text \<open>\<open>joi.string().valid(...)\<close>: nothing but the listed strings.\<close>

definition joi_string_valid :: "string list \<Rightarrow> jsval \<Rightarrow> bool" where
  "joi_string_valid vs v = (case v of JUndefined \<Rightarrow> True | JStr s \<Rightarrow> s \<in> set vs | _ \<Rightarrow> False)"

text \<open>
  \<open>joi.boolean()\<close> lowers a string and compares it with \<open>true\<close> and \<open>false\<close>. Only the
  ASCII capitals lower to the letters of these two words, so the ASCII table decides.
\<close>

definition joi_boolean :: "jsval \<Rightarrow> bool" where
  "joi_boolean v =
     (case v of
        JUndefined \<Rightarrow> True
      | JBool b \<Rightarrow> True
      | JStr s \<Rightarrow> asciiLowerCase s = ''true'' \<or> asciiLowerCase s = ''false''
      | _ \<Rightarrow> False)"

text \<open>
  \<open>joi.number()\<close> followed by rules on the number. \<open>toNumber\<close> stands for joi's
  conversion of a string that reads as a number; a number outside the safe integers of
  JavaScript is an error.
\<close>

definition safeNumber :: "rat \<Rightarrow> bool" where
  "safeNumber n = (- 9007199254740991 \<le> n \<and> n \<le> 9007199254740991)"

definition joi_number_with :: "(string \<Rightarrow> rat option) \<Rightarrow> (rat \<Rightarrow> bool) \<Rightarrow> jsval \<Rightarrow> bool" where
  "joi_number_with toNumber rules v =
     (case v of
        JUndefined \<Rightarrow> True
      | JNum n \<Rightarrow> safeNumber n \<and> rules n
      | JStr s \<Rightarrow> (case toNumber s of None \<Rightarrow> False | Some n \<Rightarrow> safeNumber n \<and> rules n)
      | _ \<Rightarrow> False)"

definition isInteger :: "rat \<Rightarrow> bool" where
  "isInteger n = (of_int \<lfloor>n\<rfloor> = n)"

text \<open>\<open>joi.object()\<close> without keys: any object that is neither \<open>null\<close> nor an array.\<close>

definition joi_any_object :: "jsval \<Rightarrow> bool" where
  "joi_any_object v = (case v of JUndefined \<Rightarrow> True | JObj kvs \<Rightarrow> True | _ \<Rightarrow> False)"

definition joi_object :: "(string \<times> (jsval \<Rightarrow> bool)) list \<Rightarrow> jsval \<Rightarrow> bool" where
  "joi_object keys v =
     (case v of
        JUndefined \<Rightarrow> True
      | JObj kvs \<Rightarrow>
          list_all (\<lambda>(k, schema). schema (ownProp kvs k)) keys \<and>
          list_all (\<lambda>k. k \<in> set (map fst keys)) (map fst kvs)
      | _ \<Rightarrow> False)"

text \<open>\<open>joi.array().items(schema)\<close> followed by a rule on the whole array.\<close>

definition joi_array_with :: "(jsval \<Rightarrow> bool) \<Rightarrow> (jsval list \<Rightarrow> bool) \<Rightarrow> jsval \<Rightarrow> bool" where
  "joi_array_with item rule v =
     (case v of
        JUndefined \<Rightarrow> True
      | JArr xs \<Rightarrow> list_all (\<lambda>x. x \<noteq> JUndefined \<and> item x) xs \<and> rule xs
      | _ \<Rightarrow> False)"

definition joi_array :: "(jsval \<Rightarrow> bool) \<Rightarrow> jsval \<Rightarrow> bool" where
  "joi_array item = joi_array_with item (\<lambda>xs. True)"

text \<open>
  \<open>unique(comparator)\<close>: no item for which the comparator answers true against an earlier
  one.
\<close>

fun unique :: "(jsval \<Rightarrow> jsval \<Rightarrow> bool) \<Rightarrow> jsval list \<Rightarrow> bool" where
  "unique comparator [] = True"
| "unique comparator (x # xs) = (\<not> list_ex (\<lambda>y. comparator x y) xs \<and> unique comparator xs)"

text \<open>\<open>===\<close>: primitives by value, two different objects or arrays never.\<close>

fun strictEquals :: "jsval \<Rightarrow> jsval \<Rightarrow> bool" where
  "strictEquals (JArr xs) b = False"
| "strictEquals (JObj kvs) b = False"
| "strictEquals a b = (a = b)"

section \<open>validation-utils.js\<close>

definition isSeparator :: "char \<Rightarrow> bool" where
  "isSeparator c = (c = CHR ''/'' \<or> c = CHR 0x5C)"

fun segments :: "string \<Rightarrow> string list" where
  "segments [] = [[]]"
| "segments (x # xs) =
     (if isSeparator x then [] # segments xs
      else (case segments xs of
              [] \<Rightarrow> [[x]]
            | y # ys \<Rightarrow> (x # y) # ys))"

text \<open>
  The pattern of \<open>isFilePath\<close>: an optional drive letter and colon, a separator, then
  non-empty portions with one separator between two of them.
\<close>

definition isFilePath :: "string \<Rightarrow> bool" where
  "isFilePath filePath =
     (let afterDrive =
            (case filePath of
               a # b # rest \<Rightarrow>
                 if a \<in> set (lowerLetters @ upperLetters) \<and> b = CHR '':'' then rest
                 else filePath
             | _ \<Rightarrow> filePath)
      in case afterDrive of
           [] \<Rightarrow> False
         | c # rest \<Rightarrow> isSeparator c \<and> list_all (\<lambda>seg. seg \<noteq> []) (segments rest))"

definition isCollectionId :: "jsval \<Rightarrow> bool" where
  "isCollectionId collectionId =
     required (joi_string_with (\<lambda>s. alphanum s \<and> length s = 20)) collectionId"

section \<open>Firestore\<close>

text \<open>
  The store as an in-memory collection with the documented meaning of its operations.
  \<open>update\<close> writes the given top-level fields into an existing document, keeps its other
  fields, and fails when there is no document under the id; \<open>delete\<close> succeeds whether
  or not the document is there. An \<open>array-contains-any\<close> filter is refused, with an
  exception, when the list of values is empty or longer than ten; the wording of that
  error is the service's, and nothing here depends on it. The indexes that the service
  wants for a query are not part of the model.
\<close>

text \<open>
  An association list reads the first entry of a key, so the fields are written from the
  last entry to the first.
\<close>

definition mergeFields :: "(string \<times> jsval) list \<Rightarrow> (string \<times> jsval) list \<Rightarrow> (string \<times> jsval) list" where
  "mergeFields changes old = foldr (\<lambda>(k, v). AList.update k v) changes old"

definition docUpdate ::
    "jsval \<Rightarrow> string \<Rightarrow> (string \<times> jsval) list \<Rightarrow> exn + (string \<times> jsval) list" where
  "docUpdate data docId docs =
     (case data of
        JObj changes \<Rightarrow>
          (case map_of docs docId of
             None \<Rightarrow> Inl (Error ''No document to update'')
           | Some (JObj old) \<Rightarrow>
               Inr (AList.update docId (JObj (mergeFields changes old)) docs)
           | Some other \<Rightarrow> Inr (AList.update docId (JObj changes) docs))
      | _ \<Rightarrow> Inl (Error ''Update data must be an object''))"

definition docDelete :: "string \<Rightarrow> (string \<times> jsval) list \<Rightarrow> (string \<times> jsval) list" where
  "docDelete docId docs = AList.delete docId docs"

text \<open>The filters \<open>where(field, "array-contains-any", values)\<close> and \<open>where(field, "==", value)\<close>.\<close>

definition arrayContainsAny :: "string \<Rightarrow> jsval list \<Rightarrow> jsval \<Rightarrow> bool" where
  "arrayContainsAny field vals d =
     (case getProp d field of JArr xs \<Rightarrow> list_ex (\<lambda>x. x \<in> set vals) xs | _ \<Rightarrow> False)"

definition whereArrayContainsAny :: "string \<Rightarrow> jsval list \<Rightarrow> exn + (jsval \<Rightarrow> bool)" where
  "whereArrayContainsAny field vals =
     (if vals = [] \<or> 10 < length vals
      then Inl (Error ''Invalid Query. array-contains-any filters support 1 to 10 values.'')
      else Inr (arrayContainsAny field vals))"

definition fieldEquals :: "string \<Rightarrow> jsval \<Rightarrow> jsval \<Rightarrow> bool" where
  "fieldEquals field val d = (getProp d field = val)"

definition runQuery ::
    "(jsval \<Rightarrow> bool) list \<Rightarrow> (string \<times> jsval) list \<Rightarrow> (string \<times> jsval) list" where
  "runQuery clauses docs = filter (\<lambda>(docId, d). list_all (\<lambda>clause. clause d) clauses) docs"

section \<open>business-controller.js\<close>

datatype response = SendStatus nat | Json nat jsval

definition errorResponse :: "nat \<Rightarrow> exn \<Rightarrow> response" where
  "errorResponse code e = Json code (JObj [(''error'', JStr (message e))])"

definition invalidParameter :: exn where
  "invalidParameter = Error ''The request parameter provided is not valid or acceptable.''"

definition invalidBody :: exn where
  "invalidBody = Error ''The request body provided is not valid or acceptable.''"

definition invalidQuery :: exn where
  "invalidQuery = Error ''The query parameters provided are not valid or acceptable.''"

definition daysOfWeek :: "string list" where
  "daysOfWeek =
     [''Sunday'', ''Monday'', ''Tuesday'', ''Wednesday'', ''Thursday'', ''Friday'', ''Saturday'']"

text \<open>The pattern \<open>/^\d{2}:\d{2}$/\<close>\<close>

definition timePattern :: "string \<Rightarrow> bool" where
  "timePattern s =
     (case s of
        [h1, h2, c, m1, m2] \<Rightarrow> isDigit h1 \<and> isDigit h2 \<and> c = CHR '':'' \<and> isDigit m1 \<and> isDigit m2
      | _ \<Rightarrow> False)"

definition daySchema :: "jsval \<Rightarrow> bool" where
  "daySchema =
     joi_object
       [(''day'', required (joi_string_valid daysOfWeek)),
        (''isOpen'', required joi_boolean),
        (''commence'', required (allow [JNull] (joi_string_with timePattern))),
        (''finish'', required (allow [JNull] (joi_string_with timePattern)))]"

definition sameDay :: "jsval \<Rightarrow> jsval \<Rightarrow> bool" where
  "sameDay a b = strictEquals (getProp a ''day'') (getProp b ''day'')"

text \<open>
  \<open>isEmail\<close> and \<open>isUri\<close> stand for joi's \<open>email()\<close> and \<open>uri()\<close> rules.
\<close>

definition isBusiness :: "(string \<Rightarrow> bool) \<Rightarrow> (string \<Rightarrow> bool) \<Rightarrow> jsval \<Rightarrow> bool" where
  "isBusiness isEmail isUri business =
     joi_object
       [(''name'', required joi_string),
        (''description'', required (allow [JNull] joi_string)),
        (''tags'', required (allow [JNull]
                     (joi_array (joi_string_with (\<lambda>s. alphanum s \<and> length s = 20))))),
        (''phoneNumber'', required (allow [JNull] joi_string)),
        (''phoneNumberSecondary'', required (allow [JNull] joi_string)),
        (''email'', required (allow [JNull] (joi_string_with isEmail))),
        (''website'', required (allow [JNull] (joi_string_with isUri))),
        (''address'', required (allow [JNull] joi_string)),
        (''city'', required (allow [JNull] joi_string)),
        (''isFeatured'', required joi_boolean),
        (''timeTable'', required (joi_array_with daySchema (unique sameDay))),
        (''appointments'', required joi_any_object),
        (''featuredImageURL'', required (allow [JNull] (joi_string_with isUri)))]
       business"

definition updateBusiness ::
    "(string \<Rightarrow> bool) \<Rightarrow> (string \<Rightarrow> bool) \<Rightarrow> string \<Rightarrow> jsval \<Rightarrow> world \<Rightarrow> response \<times> world" where
  "updateBusiness isEmail isUri businessId businessUpdate w =
     (if \<not> isCollectionId (JStr businessId) then (errorResponse 400 invalidParameter, w)
      else if \<not> isBusiness isEmail isUri businessUpdate then (errorResponse 400 invalidBody, w)
      else case docUpdate businessUpdate businessId (businessDocs w) of
             Inl e \<Rightarrow> (errorResponse 400 e, w)
           | Inr docs \<Rightarrow> (SendStatus 200, w\<lparr>businessDocs := docs\<rparr>))"

definition deleteBusinessAndFiles ::
    "(string \<Rightarrow> string option) \<Rightarrow> string \<Rightarrow> world \<Rightarrow> response \<times> world" where
  "deleteBusinessAndFiles deleteError businessId w =
     (if \<not> isCollectionId (JStr businessId) then (errorResponse 400 invalidParameter, w)
      else
        (let w1 = w\<lparr>businessDocs := docDelete businessId (businessDocs w)\<rparr>
         in case deleteFilesInFolder deleteError (''business/'' @ businessId @ ''/'') w1 of
              (Inl e, w2) \<Rightarrow> (errorResponse 400 e, w2)
            | (Inr deleted, w2) \<Rightarrow> (SendStatus 200, w2)))"

definition searchSchema :: "jsval \<Rightarrow> bool" where
  "searchSchema =
     joi_object
       [(''name'', required (allow [JNull, JStr []] joi_string)),
        (''city'', required (allow [JNull, JStr []] joi_string)),
        (''tags'', required (allow [JNull, JStr []] (joi_array joi_string)))]"

text \<open>
  The result of joi's \<open>validate\<close> has an \<open>error\<close> property exactly when the value does not
  validate, which is what \<open>hasOwnProperty("error")\<close> reads.
  \<open>isSearchParameters\<close> assigns to \<open>searchParams.tags\<close>, so the model returns the object
  as the call leaves it, next to the answer. Reading \<open>tags\<close> of \<open>undefined\<close> or \<open>null\<close>
  throws, and so does calling \<open>split\<close> on a truthy value that is not a string.
\<close>

fun isSearchParameters :: "jsval \<Rightarrow> exn + bool \<times> jsval" where
  "isSearchParameters JUndefined = Inl (TypeError ''Cannot read properties of undefined'')"
| "isSearchParameters JNull = Inl (TypeError ''Cannot read properties of null'')"
| "isSearchParameters (JObj kvs) =
     (let tags = ownProp kvs ''tags''
      in if truthy tags then
           (case tags of
              JStr s \<Rightarrow>
                (let searchParams =
                       JObj (AList.update ''tags'' (JArr (map JStr (str_split CHR '','' s))) kvs)
                 in Inr (searchSchema searchParams, searchParams))
            | _ \<Rightarrow> Inl (TypeError ''searchParams.tags.split is not a function''))
         else Inr (searchSchema (JObj kvs), JObj kvs))"
| "isSearchParameters v = Inr (searchSchema v, v)"

definition tagsClause :: "jsval \<Rightarrow> exn + (jsval \<Rightarrow> bool) list" where
  "tagsClause tags =
     (if truthy tags then
        (case tags of
           JStr s \<Rightarrow>
             (case whereArrayContainsAny ''tags'' (map JStr (str_split CHR '','' s)) of
                Inl e \<Rightarrow> Inl e
              | Inr clause \<Rightarrow> Inr [clause])
         | _ \<Rightarrow> Inl (TypeError ''tags.split is not a function''))
      else Inr [])"

definition cityClause :: "(string \<Rightarrow> string) \<Rightarrow> jsval \<Rightarrow> exn + (jsval \<Rightarrow> bool) list" where
  "cityClause lowerCase city =
     (if truthy city then
        (case city of
           JStr c \<Rightarrow> Inr [fieldEquals ''city'' (JStr (toLowerCase lowerCase c))]
         | _ \<Rightarrow> Inl (TypeError ''city.toLowerCase is not a function''))
      else Inr [])"

definition businessItem :: "string \<Rightarrow> jsval \<Rightarrow> jsval" where
  "businessItem docId businessData =
     JObj [(''businessId'', JStr docId), (''business'', businessData)]"

text \<open>
  The \<open>forEach\<close> over the query snapshot: it stops at the first exception. The name of
  the document is read and lowered before the name of the search is; a value that is
  \<open>undefined\<close> or \<open>null\<close> has no property to read, any other value that is not a string
  has no \<open>toLowerCase\<close> to call.
\<close>

fun matchNames ::
    "(string \<Rightarrow> string) \<Rightarrow> jsval \<Rightarrow> (string \<times> jsval) list \<Rightarrow> exn + jsval list" where
  "matchNames lowerCase name [] = Inr []"
| "matchNames lowerCase name ((docId, businessData) # docs) =
     (case getProp businessData ''name'' of
        JStr n \<Rightarrow>
          (case name of
             JStr q \<Rightarrow>
               (case matchNames lowerCase name docs of
                  Inl e \<Rightarrow> Inl e
                | Inr matchedBusinesses \<Rightarrow>
                    Inr (if str_includes (toLowerCase lowerCase n) (toLowerCase lowerCase q)
                         then businessItem docId businessData # matchedBusinesses
                         else matchedBusinesses))
           | JUndefined \<Rightarrow>
               Inl (TypeError ''Cannot read properties of undefined (reading 'toLowerCase')'')
           | JNull \<Rightarrow> Inl (TypeError ''Cannot read properties of null (reading 'toLowerCase')'')
           | _ \<Rightarrow> Inl (TypeError ''name.toLowerCase is not a function''))
      | JUndefined \<Rightarrow>
          Inl (TypeError ''Cannot read properties of undefined (reading 'toLowerCase')'')
      | JNull \<Rightarrow> Inl (TypeError ''Cannot read properties of null (reading 'toLowerCase')'')
      | _ \<Rightarrow> Inl (TypeError ''businessData.name.toLowerCase is not a function''))"

definition getMatchingBusinesses ::
    "(string \<Rightarrow> string) \<Rightarrow> jsval \<Rightarrow> jsval \<Rightarrow> jsval \<Rightarrow> world \<Rightarrow> response" where
  "getMatchingBusinesses lowerCase name city tags w =
     (case isSearchParameters (JObj [(''name'', name), (''city'', city), (''tags'', tags)]) of
        Inl e \<Rightarrow> errorResponse 400 e
      | Inr (valid, searchParams) \<Rightarrow>
          if \<not> valid then errorResponse 400 invalidQuery
          else
            (case tagsClause tags of
               Inl e \<Rightarrow> errorResponse 400 e
             | Inr byTags \<Rightarrow>
                 (case cityClause lowerCase city of
                    Inl e \<Rightarrow> errorResponse 400 e
                  | Inr byCity \<Rightarrow>
                      (case matchNames lowerCase name
                              (runQuery (byTags @ byCity) (businessDocs w)) of
                         Inl e \<Rightarrow> errorResponse 400 e
                       | Inr matchedBusinesses \<Rightarrow> Json 200 (JArr matchedBusinesses)))))"

text \<open>
  \<open>fileName.split('.')\<close> is destructured into its first two parts; a part that is not
  there is \<open>undefined\<close> and prints as that word in the template string.
\<close>

definition uploadBusinessFeatImage ::
    "(string \<Rightarrow> bool) \<Rightarrow> (string \<Rightarrow> exn + string) \<Rightarrow> string \<Rightarrow> string \<Rightarrow> world
      \<Rightarrow> response \<times> world" where
  "uploadBusinessFeatImage localFile getSignedUrl businessId localFilePath w =
     (if \<not> isCollectionId (JStr businessId) then (errorResponse 500 invalidParameter, w)
      else if \<not> isFilePath localFilePath then (errorResponse 500 invalidBody, w)
      else
        (let remoteFolder = ''business/'' @ businessId;
             fileName = basename localFilePath;
             parts = str_split CHR ''.'' fileName;
             baseName = (case parts of [] \<Rightarrow> ''undefined'' | b # rest \<Rightarrow> b);
             extension = (case parts of b # e # rest \<Rightarrow> e | _ \<Rightarrow> ''undefined'');
             remoteFileName = baseName @ ''-feat.'' @ extension
         in case uploadFileToFolder localFile getSignedUrl remoteFolder localFilePath
                   remoteFileName w of
              (Inl e, w') \<Rightarrow> (errorResponse 500 e, w')
            | (Inr fileURL, w') \<Rightarrow> (Json 200 (JObj [(''fileURL'', JStr fileURL)]), w')))"

section \<open>The post controller\<close>

definition isPost :: "(string \<Rightarrow> rat option) \<Rightarrow> (string \<Rightarrow> bool) \<Rightarrow> jsval \<Rightarrow> bool" where
  "isPost toNumber isUri post =
     joi_object
       [(''title'', required joi_string),
        (''content'', required (allow [JNull] joi_string)),
        (''tags'', required (allow [JNull]
                     (joi_array (joi_string_with (\<lambda>s. alphanum s \<and> length s = 20))))),
        (''isFeatured'', required joi_boolean),
        (''featuredImageURL'', required (allow [JNull] (joi_string_with isUri))),
        (''timestamp'', required (joi_number_with toNumber (\<lambda>n. isInteger n \<and> 0 \<le> n))),
        (''authorId'', required (joi_string_with (\<lambda>s. alphanum s \<and> length s = 28)))]
       post"

definition updatePost ::
    "(string \<Rightarrow> rat option) \<Rightarrow> (string \<Rightarrow> bool) \<Rightarrow> string \<Rightarrow> jsval \<Rightarrow> world
      \<Rightarrow> response \<times> world" where
  "updatePost toNumber isUri postId postUpdate w =
     (if \<not> isCollectionId (JStr postId) then (errorResponse 400 invalidParameter, w)
      else if \<not> isPost toNumber isUri postUpdate then (errorResponse 400 invalidBody, w)
      else case docUpdate postUpdate postId (postDocs w) of
             Inl e \<Rightarrow> (errorResponse 400 e, w)
           | Inr docs \<Rightarrow> (SendStatus 200, w\<lparr>postDocs := docs\<rparr>))"

definition postSearchSchema :: "jsval \<Rightarrow> bool" where
  "postSearchSchema =
     joi_object [(''tags'', required (allow [JNull, JStr []] (joi_array joi_string)))]"

fun isPostSearchParameters :: "jsval \<Rightarrow> exn + bool \<times> jsval" where
  "isPostSearchParameters JUndefined = Inl (TypeError ''Cannot read properties of undefined'')"
| "isPostSearchParameters JNull = Inl (TypeError ''Cannot read properties of null'')"
| "isPostSearchParameters (JObj kvs) =
     (let tags = ownProp kvs ''tags''
      in if truthy tags then
           (case tags of
              JStr s \<Rightarrow>
                (let searchParams =
                       JObj (AList.update ''tags'' (JArr (map JStr (str_split CHR '','' s))) kvs)
                 in Inr (postSearchSchema searchParams, searchParams))
            | _ \<Rightarrow> Inl (TypeError ''searchParams.tags.split is not a function''))
         else Inr (postSearchSchema (JObj kvs), JObj kvs))"
| "isPostSearchParameters v = Inr (postSearchSchema v, v)"

definition postItem :: "string \<times> jsval \<Rightarrow> jsval" where
  "postItem doc = JObj [(''postId'', JStr (fst doc)), (''post'', snd doc)]"

text \<open>\<open>getPostsByTag\<close> calls \<open>tags.split\<close> whether or not \<open>tags\<close> is empty.\<close>

definition getPostsByTag :: "jsval \<Rightarrow> world \<Rightarrow> response" where
  "getPostsByTag tags w =
     (case isPostSearchParameters (JObj [(''tags'', tags)]) of
        Inl e \<Rightarrow> errorResponse 400 e
      | Inr (valid, searchParams) \<Rightarrow>
          if \<not> valid then errorResponse 400 invalidQuery
          else
            (case tags of
               JStr s \<Rightarrow>
                 (case whereArrayContainsAny ''tags'' (map JStr (str_split CHR '','' s)) of
                    Inl e \<Rightarrow> errorResponse 400 e
                  | Inr clause \<Rightarrow>
                      Json 200 (JArr (map postItem (runQuery [clause] (postDocs w)))))
             | _ \<Rightarrow> errorResponse 400 (TypeError ''Cannot read properties of tags'')))"

section \<open>Notions of the specification\<close>

text \<open>
  A string contains a word up to letter case when the word, in lower case, is a part of
  the string, in lower case. A document has a name when its \<open>name\<close> field is a string, and
  its name contains a word when that string does. A document shares a tag with a list of
  tags when its \<open>tags\<close> field is an array that holds one of them.
\<close>

definition containsIgnoringCase :: "(string \<Rightarrow> string) \<Rightarrow> string \<Rightarrow> string \<Rightarrow> bool" where
  "containsIgnoringCase lowerCase s word =
     (\<exists>before rest. toLowerCase lowerCase s = before @ toLowerCase lowerCase word @ rest)"

definition hasName :: "jsval \<Rightarrow> bool" where
  "hasName d = (\<exists>n. getProp d ''name'' = JStr n)"

definition nameContains :: "(string \<Rightarrow> string) \<Rightarrow> string \<Rightarrow> jsval \<Rightarrow> bool" where
  "nameContains lowerCase word d =
     (\<exists>n. getProp d ''name'' = JStr n \<and> containsIgnoringCase lowerCase n word)"

definition sharesTag :: "string list \<Rightarrow> jsval \<Rightarrow> bool" where
  "sharesTag tags d = (\<exists>own. getProp d ''tags'' = JArr own \<and> list_ex (\<lambda>t. JStr t \<in> set own) tags)"

text \<open>The tags of a search as the query string carries them: joined by commas.\<close>

fun joinTags :: "string list \<Rightarrow> string" where
  "joinTags [] = []"
| "joinTags [t] = t"
| "joinTags (t # u # ts) = t @ CHR '','' # joinTags (u # ts)"

text \<open>The fields of a stored document, as a map.\<close>

fun fieldsOf :: "jsval \<Rightarrow> string \<rightharpoonup> jsval" where
  "fieldsOf (JObj kvs) = map_of kvs"
| "fieldsOf v = Map.empty"

text \<open>
  What an update leaves behind, from the collection \<open>docs\<close> to the collection \<open>docs'\<close>:
  the record is an object and there was a document under the id; the document now under
  the id has the record's fields with the record's values and, for the rest, the previous
  document's fields; it has the record's fields and no others when the previous document
  had no field outside them, as when the previous document is valid itself; the other
  documents are as before.
\<close>

definition fieldsMerged ::
    "(jsval \<Rightarrow> bool) \<Rightarrow> string \<Rightarrow> jsval \<Rightarrow> (string \<times> jsval) list \<Rightarrow> (string \<times> jsval) list \<Rightarrow> bool" where
  "fieldsMerged valid docId record docs docs' =
     (\<exists>changes old new.
        record = JObj changes
      \<and> map_of docs docId = Some old
      \<and> map_of docs' docId = Some (JObj new)
      \<and> map_of new = fieldsOf old ++ map_of changes
      \<and> (dom (fieldsOf old) \<subseteq> dom (map_of changes) \<longrightarrow> map_of new = map_of changes)
      \<and> (valid old \<longrightarrow> map_of new = map_of changes)
      \<and> (\<forall>other. other \<noteq> docId \<longrightarrow> map_of docs' other = map_of docs other))"

text \<open>The keys of the Business schema.\<close>

definition businessKeys :: "string list" where
  "businessKeys = [''name'', ''description'', ''tags'', ''phoneNumber'', ''phoneNumberSecondary'',
     ''email'', ''website'', ''address'', ''city'', ''isFeatured'', ''timeTable'', ''appointments'',
     ''featuredImageURL'']"

text \<open>The keys of the Post schema.\<close>

definition postKeys :: "string list" where
  "postKeys = [''title'', ''content'', ''tags'', ''isFeatured'', ''featuredImageURL'', ''timestamp'',
     ''authorId'']"

section \<open>Example data\<close>

definition exampleSign :: "string \<Rightarrow> exn + string" where
  "exampleSign name = Inr (''signed:'' @ name)"

definition exampleBucket :: world where
  "exampleBucket =
     \<lparr>businessDocs = [], postDocs = [],
      bucket = [''business/B/a.png'', ''business/B/photo-feat.png'',
                ''business/B/z-feat.jpg'', ''post/P/x.png'']\<rparr>"

definition exampleId :: string where "exampleId = ''abcdefghij0123456789''"

definition exampleBusiness :: jsval where
  "exampleBusiness = JObj
     [(''name'', JStr ''Joe Cafe''), (''description'', JNull), (''tags'', JArr [JStr ''TAGtagTAGtag12345678'']),
      (''phoneNumber'', JNull), (''phoneNumberSecondary'', JNull), (''email'', JNull),
      (''website'', JNull), (''address'', JNull), (''city'', JStr ''paris''), (''isFeatured'', JBool False),
      (''timeTable'', JArr [JObj [(''day'', JStr ''Monday''), (''isOpen'', JBool True),
                                  (''commence'', JStr ''09:00''), (''finish'', JStr ''17:30'')]]),
      (''appointments'', JObj []), (''featuredImageURL'', JNull)]"

definition legacyWorld :: world where
  "legacyWorld = \<lparr>businessDocs = [(exampleId, JObj [(''legacy'', JStr ''kept''), (''name'', JStr ''Old'')])],
                  postDocs = [], bucket = []\<rparr>"

definition twoMondays :: jsval where
  "twoMondays = JObj
     [(''name'', JStr ''Joe Cafe''), (''description'', JNull), (''tags'', JNull),
      (''phoneNumber'', JNull), (''phoneNumberSecondary'', JNull), (''email'', JNull),
      (''website'', JNull), (''address'', JNull), (''city'', JNull), (''isFeatured'', JBool False),
      (''timeTable'', JArr [JObj [(''day'', JStr ''Monday''), (''isOpen'', JBool True),
                                  (''commence'', JStr ''09:00''), (''finish'', JStr ''12:00'')],
                            JObj [(''day'', JStr ''Monday''), (''isOpen'', JBool True),
                                  (''commence'', JStr ''14:00''), (''finish'', JStr ''18:00'')]]),
      (''appointments'', JObj []), (''featuredImageURL'', JNull)]"

definition nineOClock :: jsval where
  "nineOClock = JObj
     [(''name'', JStr ''Joe Cafe''), (''description'', JNull), (''tags'', JNull),
      (''phoneNumber'', JNull), (''phoneNumberSecondary'', JNull), (''email'', JNull),
      (''website'', JNull), (''address'', JNull), (''city'', JNull), (''isFeatured'', JBool False),
      (''timeTable'', JArr [JObj [(''day'', JStr ''Monday''), (''isOpen'', JBool True),
                                  (''commence'', JStr ''9:00''), (''finish'', JStr ''12:00'')]]),
      (''appointments'', JObj []), (''featuredImageURL'', JNull)]"

definition taggedPost :: jsval where
  "taggedPost = JObj [(''title'', JStr ''News''), (''tags'', JArr [JStr ''red'', JStr ''blue''])]"

definition postWorld :: world where
  "postWorld =
     \<lparr>businessDocs = [],
      postDocs = [(''p1'', taggedPost), (''p2'', JObj [(''title'', JStr ''Old''), (''tags'', JNull)])],
      bucket = []\<rparr>"

definition joesCafe :: jsval where
  "joesCafe = JObj [(''name'', JStr ''Joe's Cafe''), (''city'', JStr ''paris''),
                    (''tags'', JArr [JStr ''red'', JStr ''blue''])]"

definition bakery :: jsval where
  "bakery = JObj [(''name'', JStr ''Bakery''), (''city'', JStr ''lyon''), (''tags'', JArr [JStr ''green''])]"

definition searchWorld :: world where
  "searchWorld = \<lparr>businessDocs = [(''b1'', joesCafe), (''b2'', bakery)], postDocs = [], bucket = []\<rparr>"

definition examplePost :: jsval where
  "examplePost = JObj
     [(''title'', JStr ''News''), (''content'', JNull), (''tags'', JNull),
      (''isFeatured'', JBool False), (''featuredImageURL'', JNull), (''timestamp'', JNum 1700000000),
      (''authorId'', JStr ''abcdefghijklmnopqrstuvwxyz01'')]"

definition renamedPost :: jsval where
  "renamedPost = JObj
     [(''title'', JStr ''More news''), (''content'', JStr ''Text''), (''tags'', JNull),
      (''isFeatured'', JBool True), (''featuredImageURL'', JNull), (''timestamp'', JNum 1700000001),
      (''authorId'', JStr ''abcdefghijklmnopqrstuvwxyz01'')]"

definition onePostWorld :: world where
  "onePostWorld = \<lparr>businessDocs = [], postDocs = [(exampleId, examplePost)], bucket = []\<rparr>"

definition elevenTags :: string where
  "elevenTags = ''red,t2,t3,t4,t5,t6,t7,t8,t9,t10,t11''"


definition twoBusinessWorld :: world where
  "twoBusinessWorld =
     \<lparr>businessDocs = [(''b1'', joesCafe), (exampleId, exampleBusiness), (''b2'', bakery)],
      postDocs = [(''p1'', taggedPost)],
      bucket = [''business/abcdefghij0123456789/a.png'', ''business/b1/photo-feat.png'']\<rparr>"

definition emptyFolderWorld :: world where
  "emptyFolderWorld =
     \<lparr>businessDocs = [(exampleId, exampleBusiness)], postDocs = [], bucket = [''post/P/x.png'']\<rparr>"

definition noDocumentWorld :: world where
  "noDocumentWorld = \<lparr>businessDocs = [], postDocs = [], bucket = []\<rparr>"

definition renamedBusiness :: jsval where
  "renamedBusiness = JObj
     [(''name'', JStr ''Joe Bar''), (''description'', JNull), (''tags'', JNull),
      (''phoneNumber'', JNull), (''phoneNumberSecondary'', JNull), (''email'', JNull),
      (''website'', JNull), (''address'', JNull), (''city'', JNull), (''isFeatured'', JBool True),
      (''timeTable'', JArr []), (''appointments'', JObj []), (''featuredImageURL'', JNull)]"

section \<open>Facts about the string and path functions\<close>

lemma startsWith_prefix: "startsWith s p = prefix p s"
  by (induction s p rule: startsWith.induct) auto

lemma endsWith_suffix: "endsWith s t = suffix t s"
  by (simp add: endsWith_def startsWith_prefix suffix_to_prefix)

lemma str_includes_sublist: "str_includes s t = sublist t s"
  by (induction s) (auto simp: startsWith_prefix sublist_Cons_right)

lemma length_basename_le: "length (basename p) \<le> length p"
proof -
  have "length (basename p) \<le> length (stripTrailingSlashes p)"
    unfolding basename_def
    using length_takeWhile_le [of _ "rev (stripTrailingSlashes p)"] by simp
  also have "\<dots> \<le> length p"
    unfolding stripTrailingSlashes_def
    using length_dropWhile_le [of _ "rev p"] by simp
  finally show ?thesis .
qed

lemma length_takeWhile_lt: "x \<in> set xs \<Longrightarrow> \<not> P x \<Longrightarrow> length (takeWhile P xs) < length xs"
  by (induction xs) auto

lemma extname_cases:
  "extname p = [] \<or> (\<exists>k. 0 < k \<and> k < length (basename p) \<and> extname p = drop k (basename p))"
proof -
  define b where "b = basename p"
  define after where "after = takeWhile (\<lambda>c. c \<noteq> CHR ''.'') (rev b)"
  have le: "length after \<le> length b"
    unfolding after_def using length_takeWhile_le [of _ "rev b"] by simp
  show ?thesis
  proof (cases "CHR ''.'' \<notin> set b \<or> Suc (length after) = length b \<or> b = ''..''")
    case True
    then have "extname p = []"
      by (auto simp: extname_def Let_def b_def after_def)
    then show ?thesis by simp
  next
    case False
    then have dot: "CHR ''.'' \<in> set b" and ne: "Suc (length after) \<noteq> length b" by auto
    have "length after < length b"
    proof -
      from dot have "CHR ''.'' \<in> set (rev b)" by simp
      then have "length (takeWhile (\<lambda>c. c \<noteq> CHR ''.'') (rev b)) < length (rev b)"
        by (rule length_takeWhile_lt) simp
      thus ?thesis by (simp add: after_def)
    qed
    with ne have k: "0 < length b - Suc (length after)" "length b - Suc (length after) < length b"
      by auto
    from False have "extname p = drop (length b - Suc (length after)) b"
      by (auto simp: extname_def Let_def b_def after_def)
    with k show ?thesis unfolding b_def by blast
  qed
qed

lemma basename_ext_extname: "basename_ext p (extname p) = parse_name p"
proof -
  from extname_cases [of p] show ?thesis
  proof
    assume "extname p = []"
    then show ?thesis by (simp add: basename_ext_def parse_name_def)
  next
    assume "\<exists>k. 0 < k \<and> k < length (basename p) \<and> extname p = drop k (basename p)"
    then obtain k where k: "0 < k" "k < length (basename p)"
      and e: "extname p = drop k (basename p)" by blast
    have len: "length (extname p) = length (basename p) - k" using e by simp
    have 1: "extname p \<noteq> []" using e k by simp
    have 2: "length (extname p) \<le> length p"
      using len length_basename_le [of p] by simp
    have 3: "extname p \<noteq> p"
    proof
      assume "extname p = p"
      then have "length p = length (basename p) - k" using len by simp
      with k length_basename_le [of p] show False by simp
    qed
    have 4: "endsWith (basename p) (extname p)"
      by (simp add: endsWith_suffix e suffix_drop)
    have 5: "basename p \<noteq> extname p"
    proof
      assume "basename p = extname p"
      then have "length (basename p) = length (extname p)" by simp
      with len k show False by simp
    qed
    show ?thesis
      using 1 2 3 4 5 by (simp add: basename_ext_def parse_name_def Let_def)
  qed
qed
lemma find_first_match:
  "\<forall>n\<in>set before. \<not> P n \<Longrightarrow> P name \<Longrightarrow> List.find P (before @ name # rest) = Some name"
  by (induction before) auto

lemma find_no_match: "\<forall>n\<in>set xs. \<not> P n \<Longrightarrow> List.find P xs = None"
  by (simp add: find_None_iff)

section \<open>Featured-image lookup\<close>

text \<open>
  C6. For every folder and suffix, \<open>getFileURLWithSuffix\<close> and \<open>findFeatImageFile\<close> fail
  with the not-found error when the folder lists no object or no listed name, without its
  extension, ends with the suffix; otherwise they answer with the first such object in
  listing order (its signed URL, or the object itself).
\<close>

theorem feat_lookup_not_found_or_first:
  "(getFiles folderPath w = [] \<or> (\<forall>n\<in>set (getFiles folderPath w). \<not> endsWith (parse_name n) sfx)
      \<longrightarrow> getFileURLWithSuffix getSignedUrl folderPath sfx w = Inl (Error notFoundMessage))
   \<and> (getFiles folderPath w = [] \<or> (\<forall>n\<in>set (getFiles folderPath w). \<not> endsWith (parse_name n) ''-feat'')
      \<longrightarrow> findFeatImageFile folderPath w = Inl (Error notFoundMessage))
   \<and> (\<forall>before name rest.
        getFiles folderPath w = before @ name # rest \<and>
        (\<forall>n\<in>set before. \<not> endsWith (parse_name n) sfx) \<and> endsWith (parse_name name) sfx
        \<longrightarrow> getFileURLWithSuffix getSignedUrl folderPath sfx w =
              (case getSignedUrl name of Inr fileURL \<Rightarrow> Inr fileURL | Inl e \<Rightarrow> Inl (Error (message e))))
   \<and> (\<forall>before name rest.
        getFiles folderPath w = before @ name # rest \<and>
        (\<forall>n\<in>set before. \<not> endsWith (parse_name n) ''-feat'') \<and> endsWith (parse_name name) ''-feat''
        \<longrightarrow> findFeatImageFile folderPath w = Inr name)"
proof (intro conjI allI impI)
  assume "getFiles folderPath w = [] \<or> (\<forall>n\<in>set (getFiles folderPath w). \<not> endsWith (parse_name n) sfx)"
  then have "\<forall>n\<in>set (getFiles folderPath w). \<not> endsWith (parse_name n) sfx" by auto
  then have "List.find (\<lambda>n. endsWith (parse_name n) sfx) (getFiles folderPath w) = None"
    by (rule find_no_match)
  then show "getFileURLWithSuffix getSignedUrl folderPath sfx w = Inl (Error notFoundMessage)"
    by (simp add: getFileURLWithSuffix_def)
next
  assume "getFiles folderPath w = [] \<or> (\<forall>n\<in>set (getFiles folderPath w). \<not> endsWith (parse_name n) ''-feat'')"
  then have "\<forall>n\<in>set (getFiles folderPath w). \<not> endsWith (parse_name n) ''-feat''" by auto
  then have "List.find (\<lambda>n. endsWith (parse_name n) ''-feat'') (getFiles folderPath w) = None"
    by (rule find_no_match)
  then show "findFeatImageFile folderPath w = Inl (Error notFoundMessage)"
    by (simp add: findFeatImageFile_def basename_ext_extname)
next
  fix before name rest
  assume a: "getFiles folderPath w = before @ name # rest \<and>
        (\<forall>n\<in>set before. \<not> endsWith (parse_name n) sfx) \<and> endsWith (parse_name name) sfx"
  then have "List.find (\<lambda>n. endsWith (parse_name n) sfx) (before @ name # rest) = Some name"
    by (intro find_first_match) auto
  with a show "getFileURLWithSuffix getSignedUrl folderPath sfx w =
              (case getSignedUrl name of Inr fileURL \<Rightarrow> Inr fileURL | Inl e \<Rightarrow> Inl (Error (message e)))"
    by (simp add: getFileURLWithSuffix_def)
next
  fix before name rest
  assume a: "getFiles folderPath w = before @ name # rest \<and>
        (\<forall>n\<in>set before. \<not> endsWith (parse_name n) ''-feat'') \<and> endsWith (parse_name name) ''-feat''"
  then have "List.find (\<lambda>n. endsWith (parse_name n) ''-feat'') (before @ name # rest) = Some name"
    by (intro find_first_match) auto
  with a show "findFeatImageFile folderPath w = Inr name"
    by (simp add: findFeatImageFile_def basename_ext_extname)
qed

theorem feat_lookup_witness:
  "getFileURLWithSuffix exampleSign ''business/B/'' ''-feat'' exampleBucket
     = Inr ''signed:business/B/photo-feat.png''
   \<and> findFeatImageFile ''business/B/'' exampleBucket = Inr ''business/B/photo-feat.png''
   \<and> getFileURLWithSuffix exampleSign ''post/P/'' ''-feat'' exampleBucket
     = Inl (Error notFoundMessage)
   \<and> findFeatImageFile ''business/Q/'' exampleBucket = Inl (Error notFoundMessage)"
  using feat_lookup_not_found_or_first [of "''business/B/''" exampleBucket "''-feat''" exampleSign]
        feat_lookup_not_found_or_first [of "''post/P/''" exampleBucket "''-feat''" exampleSign]
        feat_lookup_not_found_or_first [of "''business/Q/''" exampleBucket "''-feat''" exampleSign]
  by (simp add: exampleBucket_def exampleSign_def getFiles_def endsWith_def parse_name_def
        extname_def basename_def stripTrailingSlashes_def getFileURLWithSuffix_def
        findFeatImageFile_def basename_ext_def)

section \<open>Facts about the validators\<close>

lemmas char_defs = isAlnum_def isDigit_def upperLetters_def lowerLetters_def digits_def

lemmas joi_defs = required_def allow_def joi_string_with_def joi_string_def alphanum_def
  joi_string_valid_def joi_boolean_def joi_any_object_def joi_object_def joi_array_with_def
  joi_array_def ownProp_def

lemma exampleId_valid: "isCollectionId (JStr exampleId)"
  by (simp add: isCollectionId_def exampleId_def joi_defs char_defs)

lemma exampleBusiness_valid: "isBusiness (\<lambda>s. True) (\<lambda>s. True) exampleBusiness"
  by (simp add: isBusiness_def exampleBusiness_def joi_defs daySchema_def daysOfWeek_def
        timePattern_def sameDay_def char_defs)

lemma renamedBusiness_valid: "isBusiness (\<lambda>s. True) (\<lambda>s. True) renamedBusiness"
  by (simp add: isBusiness_def renamedBusiness_def joi_defs)

lemma ownProp_defined: "ownProp kvs k \<noteq> JUndefined \<Longrightarrow> k \<in> dom (map_of kvs)"
  by (auto simp: ownProp_def split: option.splits)

lemma isBusiness_dom:
  assumes "isBusiness isEmail isUri (JObj kvs)"
  shows "dom (map_of kvs) = set businessKeys"
proof
  from assms have "list_all (\<lambda>k. k \<in> set businessKeys) (map fst kvs)"
    by (simp add: isBusiness_def joi_object_def businessKeys_def)
  then show "dom (map_of kvs) \<subseteq> set businessKeys"
    by (auto simp: list_all_iff dom_map_of_conv_image_fst)
next
  from assms have "\<forall>k\<in>set businessKeys. ownProp kvs k \<noteq> JUndefined"
    by (simp add: isBusiness_def joi_object_def businessKeys_def required_def)
  then show "set businessKeys \<subseteq> dom (map_of kvs)"
    using ownProp_defined by blast
qed

lemma isBusiness_fields_covered:
  assumes "isBusiness isEmail isUri old" and "isBusiness isEmail isUri (JObj changes)"
  shows "dom (fieldsOf old) \<subseteq> dom (map_of changes)"
  using assms isBusiness_dom [of isEmail isUri]
  by (cases old) auto

lemma examplePost_valid: "isPost (\<lambda>s. None) (\<lambda>s. True) examplePost"
  by (simp add: isPost_def examplePost_def joi_defs joi_number_with_def safeNumber_def
        isInteger_def char_defs)

lemma renamedPost_valid: "isPost (\<lambda>s. None) (\<lambda>s. True) renamedPost"
  by (simp add: isPost_def renamedPost_def joi_defs joi_number_with_def safeNumber_def
        isInteger_def char_defs)

lemma isPost_dom:
  assumes "isPost toNumber isUri (JObj kvs)"
  shows "dom (map_of kvs) = set postKeys"
proof
  from assms have "list_all (\<lambda>k. k \<in> set postKeys) (map fst kvs)"
    by (simp add: isPost_def joi_object_def postKeys_def)
  then show "dom (map_of kvs) \<subseteq> set postKeys"
    by (auto simp: list_all_iff dom_map_of_conv_image_fst)
next
  from assms have "\<forall>k\<in>set postKeys. ownProp kvs k \<noteq> JUndefined"
    by (simp add: isPost_def joi_object_def postKeys_def required_def)
  then show "set postKeys \<subseteq> dom (map_of kvs)"
    using ownProp_defined by blast
qed

lemma isPost_fields_covered:
  assumes "isPost toNumber isUri old" and "isPost toNumber isUri (JObj changes)"
  shows "dom (fieldsOf old) \<subseteq> dom (map_of changes)"
  using assms isPost_dom [of toNumber isUri]
  by (cases old) auto

lemma unique_nth:
  "unique comparator xs \<Longrightarrow> i < j \<Longrightarrow> j < length xs \<Longrightarrow> \<not> comparator (xs ! i) (xs ! j)"
proof (induction xs arbitrary: i j)
  case Nil
  then show ?case by simp
next
  case (Cons x xs)
  show ?case
  proof (cases i)
    case 0
    with Cons.prems obtain j' where j': "j = Suc j'" "j' < length xs" by (cases j) auto
    from Cons.prems(1) have "\<forall>y\<in>set xs. \<not> comparator x y" by (simp add: list_ex_iff)
    with j' 0 show ?thesis by simp
  next
    case (Suc i')
    with Cons.prems obtain j' where j': "j = Suc j'" "i' < j'" "j' < length xs" by (cases j) auto
    from Cons.prems(1) have "unique comparator xs" by simp
    from Cons.IH [OF this j'(2,3)] Suc j' show ?thesis by simp
  qed
qed

lemma daySchema_day:
  assumes "daySchema e" and "e \<noteq> JUndefined"
  shows "\<exists>d. getProp e ''day'' = JStr d"
  using assms
  by (cases e; cases "getProp e ''day''")
     (auto simp: daySchema_def joi_object_def required_def joi_string_valid_def)

lemma daySchema_times:
  assumes "daySchema e" and "e \<noteq> JUndefined"
    and "getProp e ''commence'' = JStr s \<or> getProp e ''finish'' = JStr s"
  shows "timePattern s"
  using assms
  by (cases e) (auto simp: daySchema_def joi_object_def required_def allow_def joi_string_with_def)

lemma isBusiness_timeTable:
  assumes "isBusiness isEmail isUri business"
    and "getProp business ''timeTable'' = JArr entries"
  shows "list_all (\<lambda>x. x \<noteq> JUndefined \<and> daySchema x) entries \<and> unique sameDay entries"
  using assms
  by (cases business) (auto simp: isBusiness_def joi_object_def required_def joi_array_with_def)

section \<open>Timetable validation\<close>

text \<open>
  C9. \<open>isBusiness\<close> answers false for every candidate whose \<open>timeTable\<close> holds two entries
  with the same \<open>day\<close> value, and for every candidate with an entry whose \<open>commence\<close> or
  \<open>finish\<close> is a string that does not match the pattern of two digits, a colon and two
  digits.
\<close>

theorem timetable_rejected:
  assumes "getProp business ''timeTable'' = JArr entries"
    and "(\<exists>i j. i < j \<and> j < length entries \<and>
              getProp (entries ! i) ''day'' = getProp (entries ! j) ''day'')
       \<or> (\<exists>e s. e \<in> set entries \<and>
              (getProp e ''commence'' = JStr s \<or> getProp e ''finish'' = JStr s) \<and> \<not> timePattern s)"
  shows "\<not> isBusiness isEmail isUri business"
proof
  assume "isBusiness isEmail isUri business"
  from isBusiness_timeTable [OF this assms(1)]
  have items: "\<forall>x\<in>set entries. x \<noteq> JUndefined \<and> daySchema x" and uniq: "unique sameDay entries"
    by (auto simp: list_all_iff)
  from assms(2) show False
  proof
    assume "\<exists>i j. i < j \<and> j < length entries \<and>
              getProp (entries ! i) ''day'' = getProp (entries ! j) ''day''"
    then obtain i j where ij: "i < j" "j < length entries"
      and same: "getProp (entries ! i) ''day'' = getProp (entries ! j) ''day''" by blast
    from ij items have "entries ! i \<noteq> JUndefined \<and> daySchema (entries ! i)" by simp
    then obtain d where d: "getProp (entries ! i) ''day'' = JStr d"
      using daySchema_day by blast
    with same have "getProp (entries ! j) ''day'' = JStr d" by simp
    with d have "sameDay (entries ! i) (entries ! j)" by (simp add: sameDay_def)
    with unique_nth [OF uniq ij] show False by simp
  next
    assume "\<exists>e s. e \<in> set entries \<and>
              (getProp e ''commence'' = JStr s \<or> getProp e ''finish'' = JStr s) \<and> \<not> timePattern s"
    then obtain e s where e: "e \<in> set entries"
      and t: "getProp e ''commence'' = JStr s \<or> getProp e ''finish'' = JStr s" and bad: "\<not> timePattern s"
      by blast
    from e items have "daySchema e" "e \<noteq> JUndefined" by auto
    from daySchema_times [OF this t] bad show False by simp
  qed
qed

theorem timetable_rejected_witness:
  "\<not> isBusiness (\<lambda>s. True) (\<lambda>s. True) twoMondays \<and> \<not> isBusiness (\<lambda>s. True) (\<lambda>s. True) nineOClock"
proof -
  let ?mon1 = "JObj [(''day'', JStr ''Monday''), (''isOpen'', JBool True),
                     (''commence'', JStr ''09:00''), (''finish'', JStr ''12:00'')]"
  let ?mon2 = "JObj [(''day'', JStr ''Monday''), (''isOpen'', JBool True),
                     (''commence'', JStr ''14:00''), (''finish'', JStr ''18:00'')]"
  let ?nine = "JObj [(''day'', JStr ''Monday''), (''isOpen'', JBool True),
                     (''commence'', JStr ''9:00''), (''finish'', JStr ''12:00'')]"
  have t1: "getProp twoMondays ''timeTable'' = JArr [?mon1, ?mon2]"
    by (simp add: twoMondays_def ownProp_def)
  have d1: "(\<exists>i j. i < j \<and> j < length [?mon1, ?mon2] \<and>
              getProp ([?mon1, ?mon2] ! i) ''day'' = getProp ([?mon1, ?mon2] ! j) ''day'')
       \<or> (\<exists>e s. e \<in> set [?mon1, ?mon2] \<and>
              (getProp e ''commence'' = JStr s \<or> getProp e ''finish'' = JStr s) \<and> \<not> timePattern s)"
    by (rule disjI1, rule exI [of _ 0], rule exI [of _ 1]) (simp add: ownProp_def)
  have t2: "getProp nineOClock ''timeTable'' = JArr [?nine]"
    by (simp add: nineOClock_def ownProp_def)
  have d2: "(\<exists>i j. i < j \<and> j < length [?nine] \<and>
              getProp ([?nine] ! i) ''day'' = getProp ([?nine] ! j) ''day'')
       \<or> (\<exists>e s. e \<in> set [?nine] \<and>
              (getProp e ''commence'' = JStr s \<or> getProp e ''finish'' = JStr s) \<and> \<not> timePattern s)"
    by (rule disjI2, rule exI [of _ ?nine], rule exI [of _ "''9:00''"])
       (simp add: ownProp_def timePattern_def)
  from timetable_rejected [OF t1 d1] timetable_rejected [OF t2 d2] show ?thesis by simp
qed

section \<open>Facts about the stores\<close>

lemma map_of_mergeFields: "map_of (mergeFields changes old) = map_of old ++ map_of changes"
  by (induction changes) (auto simp: mergeFields_def update_conv' fun_eq_iff map_add_def)

lemma map_of_docDelete: "map_of (docDelete docId docs) docId = None"
  by (simp add: docDelete_def delete_conv')

lemma map_filter_empty: "(\<forall>x\<in>set xs. f x = None) \<Longrightarrow> List.map_filter f xs = []"
  by (induction xs) (auto simp: List.map_filter_simps)

lemma deleteFilesInFolder_bucket:
  "bucket (snd (deleteFilesInFolder deleteError folderPath w))
     = filter (\<lambda>name. \<not> (startsWith name folderPath \<and> deleteError name = None)) (bucket w)"
proof -
  have "filter (\<lambda>name. \<not> (name \<in> set (getFiles folderPath w) \<and> deleteError name = None)) (bucket w)
      = filter (\<lambda>name. \<not> (startsWith name folderPath \<and> deleteError name = None)) (bucket w)"
    by (rule filter_cong) (auto simp: getFiles_def)
  then show ?thesis
    by (simp add: deleteFilesInFolder_def Let_def split: list.splits)
qed

lemma deleteFilesInFolder_docs:
  "businessDocs (snd (deleteFilesInFolder deleteError folderPath w)) = businessDocs w"
  by (simp add: deleteFilesInFolder_def Let_def split: list.splits)

lemma deleteFilesInFolder_ok:
  "\<forall>name\<in>set (getFiles folderPath w). deleteError name = None
     \<Longrightarrow> fst (deleteFilesInFolder deleteError folderPath w) = Inr True"
  by (simp add: deleteFilesInFolder_def Let_def map_filter_empty)

lemma getFiles_businessDocs_update [simp]:
  "getFiles folderPath (w\<lparr>businessDocs := docs\<rparr>) = getFiles folderPath w"
  by (simp add: getFiles_def)

lemma docUpdate_missing:
  "map_of docs docId = None \<Longrightarrow> \<exists>e. docUpdate body docId docs = Inl e"
  by (cases body) (auto simp: docUpdate_def)

lemma docUpdate_merged:
  assumes upd: "docUpdate body docId docs = Inr docs'"
    and covered: "\<And>changes old. body = JObj changes \<Longrightarrow> valid old
                    \<Longrightarrow> dom (fieldsOf old) \<subseteq> dom (map_of changes)"
  shows "fieldsMerged valid docId body docs docs'"
proof -
  from upd obtain changes where ch: "body = JObj changes"
    by (cases body) (auto simp: docUpdate_def)
  from upd ch obtain old where old: "map_of docs docId = Some old"
    by (auto simp: docUpdate_def split: option.splits)
  define new where "new = (case old of JObj fs \<Rightarrow> mergeFields changes fs | _ \<Rightarrow> changes)"
  have docs': "docs' = AList.update docId (JObj new) docs"
    using upd ch old by (cases old) (auto simp: docUpdate_def new_def)
  have m: "map_of new = fieldsOf old ++ map_of changes"
    by (cases old) (simp_all add: new_def map_of_mergeFields)
  have eq: "map_of new = map_of changes" if "dom (fieldsOf old) \<subseteq> dom (map_of changes)"
  proof
    fix k
    show "map_of new k = map_of changes k"
      using that m by (cases "map_of changes k") (auto simp: map_add_def split: option.splits)
  qed
  have eq': "map_of new = map_of changes" if "valid old"
    using that ch by (intro eq covered)
  have "body = JObj changes \<and> map_of docs docId = Some old
      \<and> map_of docs' docId = Some (JObj new)
      \<and> map_of new = fieldsOf old ++ map_of changes
      \<and> (dom (fieldsOf old) \<subseteq> dom (map_of changes) \<longrightarrow> map_of new = map_of changes)
      \<and> (valid old \<longrightarrow> map_of new = map_of changes)
      \<and> (\<forall>other. other \<noteq> docId \<longrightarrow> map_of docs' other = map_of docs other)"
    using ch old m eq eq' by (simp add: docs' update_conv')
  then show ?thesis unfolding fieldsMerged_def by blast
qed

section \<open>Update\<close>

text \<open>
  C10. For a well-formed id under which the collection holds no document and a record that
  passes validation, \<open>updateBusiness\<close> and \<open>updatePost\<close> answer with status 400 and a body
  \<open>{ error: message }\<close>, and leave the stores as they were: no document is created.
\<close>

theorem update_missing_document:
  assumes "isCollectionId (JStr docId)"
  shows "(isBusiness isEmail isUri body \<and> map_of (businessDocs w) docId = None \<longrightarrow>
            (\<exists>msg. updateBusiness isEmail isUri docId body w
                      = (Json 400 (JObj [(''error'', JStr msg)]), w)))
       \<and> (isPost toNumber isUri body \<and> map_of (postDocs w) docId = None \<longrightarrow>
            (\<exists>msg. updatePost toNumber isUri docId body w
                      = (Json 400 (JObj [(''error'', JStr msg)]), w)))"
proof (intro conjI impI)
  assume a: "isBusiness isEmail isUri body \<and> map_of (businessDocs w) docId = None"
  then obtain e where "docUpdate body docId (businessDocs w) = Inl e"
    using docUpdate_missing by blast
  with a assms show "\<exists>msg. updateBusiness isEmail isUri docId body w
                      = (Json 400 (JObj [(''error'', JStr msg)]), w)"
    by (simp add: updateBusiness_def errorResponse_def)
next
  assume a: "isPost toNumber isUri body \<and> map_of (postDocs w) docId = None"
  then obtain e where "docUpdate body docId (postDocs w) = Inl e"
    using docUpdate_missing by blast
  with a assms show "\<exists>msg. updatePost toNumber isUri docId body w
                      = (Json 400 (JObj [(''error'', JStr msg)]), w)"
    by (simp add: updatePost_def errorResponse_def)
qed

theorem update_missing_document_witness:
  "updateBusiness (\<lambda>s. True) (\<lambda>s. True) exampleId exampleBusiness noDocumentWorld
       = (Json 400 (JObj [(''error'', JStr ''No document to update'')]), noDocumentWorld)
   \<and> updatePost (\<lambda>s. None) (\<lambda>s. True) exampleId examplePost noDocumentWorld
       = (Json 400 (JObj [(''error'', JStr ''No document to update'')]), noDocumentWorld)"
proof -
  have b: "isBusiness (\<lambda>s. True) (\<lambda>s. True) exampleBusiness
            \<and> map_of (businessDocs noDocumentWorld) exampleId = None"
    using exampleBusiness_valid by (simp add: noDocumentWorld_def)
  have p: "isPost (\<lambda>s. None) (\<lambda>s. True) examplePost
            \<and> map_of (postDocs noDocumentWorld) exampleId = None"
    using examplePost_valid by (simp add: noDocumentWorld_def)
  note t = update_missing_document [OF exampleId_valid,
      of "\<lambda>s. True" "\<lambda>s. True" exampleBusiness noDocumentWorld "\<lambda>s. None"]
  note t' = update_missing_document [OF exampleId_valid,
      of "\<lambda>s. True" "\<lambda>s. True" examplePost noDocumentWorld "\<lambda>s. None"]
  from t b obtain m1 where 1:
    "updateBusiness (\<lambda>s. True) (\<lambda>s. True) exampleId exampleBusiness noDocumentWorld
       = (Json 400 (JObj [(''error'', JStr m1)]), noDocumentWorld)" by blast
  from t' p obtain m2 where 2:
    "updatePost (\<lambda>s. None) (\<lambda>s. True) exampleId examplePost noDocumentWorld
       = (Json 400 (JObj [(''error'', JStr m2)]), noDocumentWorld)" by blast
  have "fst (updateBusiness (\<lambda>s. True) (\<lambda>s. True) exampleId exampleBusiness noDocumentWorld)
       = Json 400 (JObj [(''error'', JStr ''No document to update'')])"
    using exampleId_valid exampleBusiness_valid
    by (simp add: updateBusiness_def docUpdate_def noDocumentWorld_def exampleBusiness_def
          errorResponse_def)
  moreover have "fst (updatePost (\<lambda>s. None) (\<lambda>s. True) exampleId examplePost noDocumentWorld)
       = Json 400 (JObj [(''error'', JStr ''No document to update'')])"
    using exampleId_valid examplePost_valid
    by (simp add: updatePost_def docUpdate_def noDocumentWorld_def examplePost_def
          errorResponse_def)
  ultimately show ?thesis using 1 2 by simp
qed

text \<open>
  C3, as the code has it. After a successful \<open>updateBusiness\<close> or \<open>updatePost\<close> the id is
  well-formed, the record valid, and the collection is as \<open>fieldsMerged\<close> says: the document
  under the id holds every field of the supplied record with the supplied value and keeps
  every field of the previous document that the record does not name; it has the fields of
  the record and no others when the previous document had no field outside the record's,
  as is the case when the previous document is itself valid; the other documents and the
  other stores are as before.
\<close>

theorem update_merges_fields:
  "(updateBusiness isEmail isUri docId body w = (SendStatus 200, w') \<longrightarrow>
      isCollectionId (JStr docId) \<and> isBusiness isEmail isUri body
    \<and> fieldsMerged (isBusiness isEmail isUri) docId body (businessDocs w) (businessDocs w')
    \<and> postDocs w' = postDocs w \<and> bucket w' = bucket w)
   \<and> (updatePost toNumber isUri docId body w = (SendStatus 200, w') \<longrightarrow>
      isCollectionId (JStr docId) \<and> isPost toNumber isUri body
    \<and> fieldsMerged (isPost toNumber isUri) docId body (postDocs w) (postDocs w')
    \<and> businessDocs w' = businessDocs w \<and> bucket w' = bucket w)"
proof (rule conjI; rule impI)
  assume run: "updateBusiness isEmail isUri docId body w = (SendStatus 200, w')"
  then have valid: "isCollectionId (JStr docId)" "isBusiness isEmail isUri body"
    by (auto simp: updateBusiness_def errorResponse_def split: if_splits)
  from run obtain docs where
    upd: "docUpdate body docId (businessDocs w) = Inr docs"
    and w': "w' = w\<lparr>businessDocs := docs\<rparr>"
    by (auto simp: updateBusiness_def errorResponse_def split: if_splits sum.splits)
  have "fieldsMerged (isBusiness isEmail isUri) docId body (businessDocs w) docs"
    using upd
  proof (rule docUpdate_merged)
    fix changes old
    assume "body = JObj changes" "isBusiness isEmail isUri old"
    with valid show "dom (fieldsOf old) \<subseteq> dom (map_of changes)"
      by (intro isBusiness_fields_covered) auto
  qed
  with valid w' show "isCollectionId (JStr docId) \<and> isBusiness isEmail isUri body
    \<and> fieldsMerged (isBusiness isEmail isUri) docId body (businessDocs w) (businessDocs w')
    \<and> postDocs w' = postDocs w \<and> bucket w' = bucket w"
    by simp
next
  assume run: "updatePost toNumber isUri docId body w = (SendStatus 200, w')"
  then have valid: "isCollectionId (JStr docId)" "isPost toNumber isUri body"
    by (auto simp: updatePost_def errorResponse_def split: if_splits)
  from run obtain docs where
    upd: "docUpdate body docId (postDocs w) = Inr docs"
    and w': "w' = w\<lparr>postDocs := docs\<rparr>"
    by (auto simp: updatePost_def errorResponse_def split: if_splits sum.splits)
  have "fieldsMerged (isPost toNumber isUri) docId body (postDocs w) docs"
    using upd
  proof (rule docUpdate_merged)
    fix changes old
    assume "body = JObj changes" "isPost toNumber isUri old"
    with valid show "dom (fieldsOf old) \<subseteq> dom (map_of changes)"
      by (intro isPost_fields_covered) auto
  qed
  with valid w' show "isCollectionId (JStr docId) \<and> isPost toNumber isUri body
    \<and> fieldsMerged (isPost toNumber isUri) docId body (postDocs w) (postDocs w')
    \<and> businessDocs w' = businessDocs w \<and> bucket w' = bucket w"
    by simp
qed

theorem update_merges_fields_witness:
  "updateBusiness (\<lambda>s. True) (\<lambda>s. True) exampleId renamedBusiness emptyFolderWorld
     = (SendStatus 200, emptyFolderWorld\<lparr>businessDocs := [(exampleId, renamedBusiness)]\<rparr>)
   \<and> fieldsMerged (isBusiness (\<lambda>s. True) (\<lambda>s. True)) exampleId renamedBusiness
        [(exampleId, exampleBusiness)] [(exampleId, renamedBusiness)]
   \<and> updatePost (\<lambda>s. None) (\<lambda>s. True) exampleId renamedPost onePostWorld
     = (SendStatus 200, onePostWorld\<lparr>postDocs := [(exampleId, renamedPost)]\<rparr>)
   \<and> fieldsMerged (isPost (\<lambda>s. None) (\<lambda>s. True)) exampleId renamedPost
        [(exampleId, examplePost)] [(exampleId, renamedPost)]"
proof -
  have b: "updateBusiness (\<lambda>s. True) (\<lambda>s. True) exampleId renamedBusiness emptyFolderWorld
     = (SendStatus 200, emptyFolderWorld\<lparr>businessDocs := [(exampleId, renamedBusiness)]\<rparr>)"
    using exampleId_valid renamedBusiness_valid
    by (simp add: updateBusiness_def docUpdate_def emptyFolderWorld_def exampleBusiness_def
          renamedBusiness_def mergeFields_def)
  have p: "updatePost (\<lambda>s. None) (\<lambda>s. True) exampleId renamedPost onePostWorld
     = (SendStatus 200, onePostWorld\<lparr>postDocs := [(exampleId, renamedPost)]\<rparr>)"
    using exampleId_valid renamedPost_valid
    by (simp add: updatePost_def docUpdate_def onePostWorld_def examplePost_def
          renamedPost_def mergeFields_def)
  from update_merges_fields [of "\<lambda>s. True" "\<lambda>s. True" exampleId renamedBusiness emptyFolderWorld
      "emptyFolderWorld\<lparr>businessDocs := [(exampleId, renamedBusiness)]\<rparr>" "\<lambda>s. None"] b
  have 1: "fieldsMerged (isBusiness (\<lambda>s. True) (\<lambda>s. True)) exampleId renamedBusiness
        [(exampleId, exampleBusiness)] [(exampleId, renamedBusiness)]"
    by (simp add: emptyFolderWorld_def)
  from update_merges_fields [of "\<lambda>s. True" "\<lambda>s. True" exampleId renamedPost onePostWorld
      "onePostWorld\<lparr>postDocs := [(exampleId, renamedPost)]\<rparr>" "\<lambda>s. None"] p
  have 2: "fieldsMerged (isPost (\<lambda>s. None) (\<lambda>s. True)) exampleId renamedPost
        [(exampleId, examplePost)] [(exampleId, renamedPost)]"
    by (simp add: onePostWorld_def)
  from b 1 p 2 show ?thesis by simp
qed
text \<open>
  C3 does not hold as a full replace: where the previous document has a field that the
  record does not name, the field is still there after the update.
\<close>

theorem update_keeps_other_fields:
  "fst (updateBusiness (\<lambda>s. True) (\<lambda>s. True) exampleId exampleBusiness legacyWorld) = SendStatus 200
   \<and> map_of (businessDocs (snd (updateBusiness (\<lambda>s. True) (\<lambda>s. True) exampleId exampleBusiness legacyWorld)))
        exampleId \<noteq> Some exampleBusiness
   \<and> (case map_of (businessDocs (snd (updateBusiness (\<lambda>s. True) (\<lambda>s. True) exampleId exampleBusiness legacyWorld)))
             exampleId of
        None \<Rightarrow> False
      | Some stored \<Rightarrow> getProp stored ''legacy'' = JStr ''kept''
                        \<and> getProp stored ''name'' = JStr ''Joe Cafe'')"
  using exampleId_valid exampleBusiness_valid
  by (simp add: updateBusiness_def docUpdate_def legacyWorld_def mergeFields_def exampleBusiness_def ownProp_def)

section \<open>Delete\<close>

lemma docDelete_filter: "docDelete docId docs = filter (\<lambda>doc. fst doc \<noteq> docId) docs"
  by (induction docs) (auto simp: docDelete_def)

lemma deleteFilesInFolder_posts:
  "postDocs (snd (deleteFilesInFolder deleteError folderPath w)) = postDocs w"
  by (simp add: deleteFilesInFolder_def Let_def split: list.splits)

lemma map_filter_rejected:
  "x \<in> set xs \<Longrightarrow> f x \<noteq> None \<Longrightarrow> \<exists>m ms. List.map_filter f xs = m # ms"
  by (induction xs) (auto split: option.splits)

lemma deleteFilesInFolder_rejected:
  assumes "name \<in> set (getFiles folderPath w)" and "deleteError name \<noteq> None"
  shows "\<exists>m. fst (deleteFilesInFolder deleteError folderPath w) = Inl (Error m)"
proof -
  from map_filter_rejected [of name "getFiles folderPath w" deleteError] assms obtain m ms
    where "List.map_filter deleteError (getFiles folderPath w) = m # ms" by blast
  then show ?thesis by (simp add: deleteFilesInFolder_def Let_def)
qed

text \<open>
  C8. For a valid business id, \<open>deleteBusinessAndFiles\<close> removes the business document
  under the id and no other document: the other business documents stay, in their order,
  and the posts are untouched. It then starts the deletion of every object under
  \<open>business/id/\<close>: each such object is gone unless the store rejected its deletion, and
  every other object stays. When no deletion is rejected, and so when the folder holds no
  object, the answer is status 200; when one is rejected, it is status 400 with the error.
\<close>

theorem delete_business_and_files:
  assumes "isCollectionId (JStr businessId)"
  shows "businessDocs (snd (deleteBusinessAndFiles deleteError businessId w))
        = filter (\<lambda>doc. fst doc \<noteq> businessId) (businessDocs w)
    \<and> map_of (businessDocs (snd (deleteBusinessAndFiles deleteError businessId w))) businessId = None
    \<and> postDocs (snd (deleteBusinessAndFiles deleteError businessId w)) = postDocs w
    \<and> bucket (snd (deleteBusinessAndFiles deleteError businessId w))
        = filter (\<lambda>name. \<not> (startsWith name (''business/'' @ businessId @ ''/'') \<and> deleteError name = None))
            (bucket w)
    \<and> ((\<forall>name\<in>set (bucket w). startsWith name (''business/'' @ businessId @ ''/'') \<longrightarrow> deleteError name = None)
         \<longrightarrow> fst (deleteBusinessAndFiles deleteError businessId w) = SendStatus 200)
    \<and> ((\<exists>name\<in>set (bucket w). startsWith name (''business/'' @ businessId @ ''/'') \<and> deleteError name \<noteq> None)
         \<longrightarrow> (\<exists>msg. fst (deleteBusinessAndFiles deleteError businessId w)
                        = Json 400 (JObj [(''error'', JStr msg)])))
    \<and> (getFiles (''business/'' @ businessId @ ''/'') w = []
         \<longrightarrow> fst (deleteBusinessAndFiles deleteError businessId w) = SendStatus 200
             \<and> bucket (snd (deleteBusinessAndFiles deleteError businessId w)) = bucket w)"
proof -
  define folder where "folder = ''business/'' @ businessId @ ''/''"
  define w1 where "w1 = w\<lparr>businessDocs := docDelete businessId (businessDocs w)\<rparr>"
  define r where "r = deleteFilesInFolder deleteError folder w1"
  have run: "deleteBusinessAndFiles deleteError businessId w
      = (case fst r of Inl e \<Rightarrow> errorResponse 400 e | Inr deleted \<Rightarrow> SendStatus 200, snd r)"
    using assms
    by (cases r) (auto simp: deleteBusinessAndFiles_def Let_def folder_def w1_def r_def split: sum.splits)
  have kept: "businessDocs (snd r) = filter (\<lambda>doc. fst doc \<noteq> businessId) (businessDocs w)"
    by (simp add: r_def deleteFilesInFolder_docs w1_def docDelete_filter)
  have docs: "map_of (businessDocs (snd r)) businessId = None"
    by (simp add: r_def deleteFilesInFolder_docs w1_def map_of_docDelete)
  have posts: "postDocs (snd r) = postDocs w"
    by (simp add: r_def deleteFilesInFolder_posts w1_def)
  have bkt: "bucket (snd r)
      = filter (\<lambda>name. \<not> (startsWith name folder \<and> deleteError name = None)) (bucket w)"
    by (simp add: r_def deleteFilesInFolder_bucket w1_def)
  have ok: "fst r = Inr True"
    if "\<forall>name\<in>set (bucket w). startsWith name folder \<longrightarrow> deleteError name = None"
  proof -
    from that have "\<forall>name\<in>set (getFiles folder w1). deleteError name = None"
      by (auto simp: getFiles_def w1_def)
    then show ?thesis unfolding r_def by (rule deleteFilesInFolder_ok)
  qed
  have rejected: "\<exists>msg. fst r = Inl (Error msg)"
    if "\<exists>name\<in>set (bucket w). startsWith name folder \<and> deleteError name \<noteq> None"
  proof -
    from that obtain name where "name \<in> set (getFiles folder w1)" "deleteError name \<noteq> None"
      by (auto simp: getFiles_def w1_def)
    then show ?thesis unfolding r_def by (rule deleteFilesInFolder_rejected)
  qed
  have empty: "fst r = Inr True \<and> bucket (snd r) = bucket w" if e: "getFiles folder w = []"
  proof -
    from e have none: "\<forall>name\<in>set (bucket w). \<not> startsWith name folder"
      by (auto simp: getFiles_def filter_empty_conv)
    then have "fst r = Inr True" by (intro ok) auto
    moreover from none have "filter (\<lambda>name. \<not> (startsWith name folder \<and> deleteError name = None)) (bucket w) = bucket w"
      by (auto simp: filter_id_conv)
    ultimately show ?thesis using bkt by simp
  qed
  have bad: "\<exists>msg. (case fst r of Inl e \<Rightarrow> errorResponse 400 e | Inr deleted \<Rightarrow> SendStatus 200)
                      = Json 400 (JObj [(''error'', JStr msg)])"
    if "\<exists>name\<in>set (bucket w). startsWith name folder \<and> deleteError name \<noteq> None"
    using rejected [OF that] by (auto simp: errorResponse_def)
  show ?thesis
    unfolding run folder_def [symmetric]
    using kept docs posts bkt ok empty bad by auto
qed

theorem delete_business_and_files_witness:
  "deleteBusinessAndFiles (\<lambda>name. None) exampleId emptyFolderWorld
     = (SendStatus 200, emptyFolderWorld\<lparr>businessDocs := []\<rparr>)
   \<and> deleteBusinessAndFiles (\<lambda>name. None) exampleId twoBusinessWorld
     = (SendStatus 200,
        \<lparr>businessDocs = [(''b1'', joesCafe), (''b2'', bakery)],
         postDocs = [(''p1'', taggedPost)],
         bucket = [''business/b1/photo-feat.png'']\<rparr>)"
  using delete_business_and_files [OF exampleId_valid, of "\<lambda>name. None" emptyFolderWorld]
    delete_business_and_files [OF exampleId_valid, of "\<lambda>name. None" twoBusinessWorld]
    exampleId_valid
  by (simp add: deleteBusinessAndFiles_def deleteFilesInFolder_def getFiles_def docDelete_def
        emptyFolderWorld_def twoBusinessWorld_def exampleId_def)

section \<open>Facts about splitting and joining\<close>

lemma str_split_no_separator: "c \<notin> set t \<Longrightarrow> str_split c t = [t]"
  by (induction t) auto

lemma str_split_append: "c \<notin> set t \<Longrightarrow> str_split c (t @ c # rest) = t # str_split c rest"
  by (induction t) (auto split: list.splits)

lemma str_split_joinTags:
  "ts \<noteq> [] \<Longrightarrow> \<forall>t\<in>set ts. c \<notin> set t \<Longrightarrow> c = CHR '','' \<Longrightarrow> str_split c (joinTags ts) = ts"
  by (induction ts rule: joinTags.induct) (auto simp: str_split_no_separator str_split_append)

lemma joinTags_not_empty: "ts \<noteq> [] \<Longrightarrow> \<forall>t\<in>set ts. t \<noteq> [] \<Longrightarrow> joinTags ts \<noteq> []"
  by (induction ts rule: joinTags.induct) auto

lemma str_split_not_empty: "str_split c s \<noteq> []"
  by (induction s) (auto split: list.splits)

section \<open>Facts about the search\<close>

lemma string_criterion:
  "required (allow [JNull, JStr []] joi_string) v \<longleftrightarrow> v = JNull \<or> (\<exists>s. v = JStr s)"
  by (cases v) (auto simp: joi_defs)

lemma searchSchema_triple:
  "searchSchema (JObj [(''name'', n), (''city'', c), (''tags'', t)])
     = (required (allow [JNull, JStr []] joi_string) n
        \<and> required (allow [JNull, JStr []] joi_string) c
        \<and> required (allow [JNull, JStr []] (joi_array joi_string)) t)"
  by (simp add: searchSchema_def joi_object_def ownProp_def)

lemma tags_array_criterion:
  "required (allow [JNull, JStr []] (joi_array joi_string)) (JArr (map JStr ts))
     = list_all (\<lambda>t. t \<noteq> []) ts"
  by (simp add: joi_defs list_all_iff)

lemma ownProp_update_same: "ownProp (AList.update k v kvs) k = v"
  by (simp add: ownProp_def update_conv')

lemma ownProp_update_other: "k' \<noteq> k \<Longrightarrow> ownProp (AList.update k v kvs) k' = ownProp kvs k'"
  by (simp add: ownProp_def update_conv')

lemma str_includes_contains:
  "str_includes (toLowerCase lowerCase s) (toLowerCase lowerCase word)
     = containsIgnoringCase lowerCase s word"
  by (simp add: str_includes_sublist sublist_def containsIgnoringCase_def)

lemma nameContains_code:
  "getProp d ''name'' = JStr n \<Longrightarrow>
   nameContains lowerCase word d
     = str_includes (toLowerCase lowerCase n) (toLowerCase lowerCase word)"
  by (simp add: nameContains_def str_includes_contains)

lemma containsIgnoringCase_empty: "containsIgnoringCase lowerCase s []"
proof -
  have "toLowerCase lowerCase s = [] @ toLowerCase lowerCase [] @ toLowerCase lowerCase s"
    by (simp add: toLowerCase_def)
  then show ?thesis unfolding containsIgnoringCase_def by blast
qed

lemma nameContains_empty: "hasName d \<Longrightarrow> nameContains lowerCase [] d"
  unfolding hasName_def nameContains_def using containsIgnoringCase_empty by blast

lemma matchNames_filter:
  "\<forall>doc\<in>set docs. hasName (snd doc) \<Longrightarrow>
   matchNames lowerCase (JStr word) docs
     = Inr (map (\<lambda>(docId, d). businessItem docId d)
              (filter (\<lambda>(docId, d). nameContains lowerCase word d) docs))"
proof (induction docs)
  case Nil
  then show ?case by simp
next
  case (Cons doc docs)
  obtain docId d where doc: "doc = (docId, d)" by (cases doc)
  from Cons.prems doc obtain n where n: "getProp d ''name'' = JStr n"
    by (auto simp: hasName_def)
  from Cons have IH: "matchNames lowerCase (JStr word) docs
     = Inr (map (\<lambda>(docId, d). businessItem docId d)
              (filter (\<lambda>(docId, d). nameContains lowerCase word d) docs))"
    by simp
  show ?case
    by (simp add: doc n IH nameContains_code [OF n])
qed

lemma matchNames_throws:
  "\<exists>doc\<in>set docs. \<not> hasName (snd doc) \<Longrightarrow> \<exists>e. matchNames lowerCase name docs = Inl e"
proof (induction docs)
  case Nil
  then show ?case by simp
next
  case (Cons doc docs)
  obtain docId d where doc: "doc = (docId, d)" by (cases doc)
  show ?case
  proof (cases "hasName d")
    case False
    then show ?thesis
      by (cases "getProp d ''name''") (auto simp: doc hasName_def)
  next
    case True
    with Cons.prems doc have "\<exists>doc\<in>set docs. \<not> hasName (snd doc)" by auto
    with Cons.IH obtain e where "matchNames lowerCase name docs = Inl e" by blast
    then show ?thesis
      by (cases "getProp d ''name''"; cases name) (auto simp: doc)
  qed
qed

lemma whereArrayContainsAny_accepts:
  "vals \<noteq> [] \<Longrightarrow> length vals \<le> 10
     \<Longrightarrow> whereArrayContainsAny field vals = Inr (arrayContainsAny field vals)"
  by (simp add: whereArrayContainsAny_def)

lemma whereArrayContainsAny_refuses:
  "10 < length vals \<Longrightarrow> \<exists>e. whereArrayContainsAny field vals = Inl e"
  by (simp add: whereArrayContainsAny_def)

lemma arrayContainsAny_sharesTag:
  "arrayContainsAny ''tags'' (map JStr tags) d = sharesTag tags d"
  by (cases "getProp d ''tags''") (auto simp: arrayContainsAny_def sharesTag_def list_ex_iff)

lemma sharesTag_strings:
  "getProp d ''tags'' = JArr (map JStr T1) \<Longrightarrow> sharesTag T2 d = (set T1 \<inter> set T2 \<noteq> {})"
  by (auto simp: sharesTag_def list_ex_iff)


lemma search_answer:
  assumes "isSearchParameters (JObj [(''name'', JStr word), (''city'', city), (''tags'', tags)])
             = Inr (True, searchParams)"
    and "tagsClause tags = Inr byTags" and "cityClause lowerCase city = Inr byCity"
  shows "getMatchingBusinesses lowerCase (JStr word) city tags w
     = (case matchNames lowerCase (JStr word) (runQuery (byTags @ byCity) (businessDocs w)) of
          Inl e \<Rightarrow> errorResponse 400 e
        | Inr matchedBusinesses \<Rightarrow> Json 200 (JArr matchedBusinesses))"
  using assms by (simp add: getMatchingBusinesses_def)

lemma search_answer_named:
  assumes "isSearchParameters (JObj [(''name'', JStr word), (''city'', city), (''tags'', tags)])
             = Inr (True, searchParams)"
    and "tagsClause tags = Inr byTags" and "cityClause lowerCase city = Inr byCity"
    and "\<forall>doc\<in>set (runQuery (byTags @ byCity) (businessDocs w)). hasName (snd doc)"
  shows "getMatchingBusinesses lowerCase (JStr word) city tags w
     = Json 200 (JArr (map (\<lambda>(docId, d). businessItem docId d)
          (filter (\<lambda>(docId, d). nameContains lowerCase word d)
             (runQuery (byTags @ byCity) (businessDocs w)))))"
  using search_answer [OF assms(1-3)] matchNames_filter [OF assms(4)] by simp

lemma search_answer_nameless:
  assumes "isSearchParameters (JObj [(''name'', JStr word), (''city'', city), (''tags'', tags)])
             = Inr (True, searchParams)"
    and "tagsClause tags = Inr byTags" and "cityClause lowerCase city = Inr byCity"
    and "\<exists>doc\<in>set (runQuery (byTags @ byCity) (businessDocs w)). \<not> hasName (snd doc)"
  shows "\<exists>msg. getMatchingBusinesses lowerCase (JStr word) city tags w
     = Json 400 (JObj [(''error'', JStr msg)])"
proof -
  from matchNames_throws [OF assms(4)] obtain e where
    "matchNames lowerCase (JStr word) (runQuery (byTags @ byCity) (businessDocs w)) = Inl e"
    by blast
  with search_answer [OF assms(1-3)] show ?thesis by (simp add: errorResponse_def)
qed


lemmas ascii_defs = asciiLowerCase_def asciiLowerChar_def upperLetters_def lowerLetters_def


lemma isSearchParameters_strings:
  assumes "tags = [] \<or> list_all (\<lambda>t. t \<noteq> []) (str_split CHR '','' tags)"
  shows "\<exists>searchParams.
           isSearchParameters (JObj [(''name'', JStr word), (''city'', JStr city), (''tags'', JStr tags)])
             = Inr (True, searchParams)"
  using assms
  by (auto simp: ownProp_def Let_def searchSchema_triple string_criterion tags_array_criterion)
     (auto simp: joi_defs)

lemma tagsClause_strings:
  assumes "tags = [] \<or> length (str_split CHR '','' tags) \<le> 10"
  shows "tagsClause (JStr tags)
     = Inr (if tags = [] then []
            else [arrayContainsAny ''tags'' (map JStr (str_split CHR '','' tags))])"
  using assms
  by (auto simp: tagsClause_def whereArrayContainsAny_def str_split_not_empty)

lemma cityClause_strings:
  "cityClause lowerCase (JStr city)
     = Inr (if city = [] then [] else [fieldEquals ''city'' (JStr (toLowerCase lowerCase city))])"
  by (simp add: cityClause_def)

lemma postSearchSchema_tags:
  "postSearchSchema (JObj [(''tags'', JArr (map JStr ts))]) = list_all (\<lambda>t. t \<noteq> []) ts"
  by (simp add: postSearchSchema_def joi_defs list_all_iff)

lemma isPostSearchParameters_tags:
  assumes "s \<noteq> []" and "list_all (\<lambda>t. t \<noteq> []) (str_split CHR '','' s)"
  shows "\<exists>searchParams. isPostSearchParameters (JObj [(''tags'', JStr s)]) = Inr (True, searchParams)"
  using assms by (simp add: ownProp_def Let_def postSearchSchema_tags)

lemma runQuery_single:
  "runQuery [clause] docs = filter (\<lambda>doc. clause (snd doc)) docs"
  unfolding runQuery_def by (rule filter_cong) auto

section \<open>The tag filter\<close>

text \<open>
  C7, as the code has it. Let T2 be the tags of a search as the query string carries them:
  one to ten tags, none empty, none with a comma. \<open>getPostsByTag\<close> answers with the posts
  that share a tag with T2, in store order. The business search with no name and no city
  answers with the businesses that share a tag with T2, in store order, when each of them
  has a name; when one of them has none, it answers with status 400. A record whose
  \<open>tags\<close> field is T1 shares a tag with T2 exactly when T1 and T2 have an element in
  common.
\<close>

theorem tag_filter_is_disjunction:
  assumes "T2 \<noteq> []" and "length T2 \<le> 10" and "\<forall>t\<in>set T2. t \<noteq> [] \<and> CHR '','' \<notin> set t"
  shows "getPostsByTag (JStr (joinTags T2)) w
           = Json 200 (JArr (map postItem (filter (\<lambda>doc. sharesTag T2 (snd doc)) (postDocs w))))
     \<and> ((\<forall>doc\<in>set (businessDocs w). sharesTag T2 (snd doc) \<longrightarrow> hasName (snd doc)) \<longrightarrow>
          getMatchingBusinesses lowerCase (JStr []) (JStr []) (JStr (joinTags T2)) w
            = Json 200 (JArr (map (\<lambda>(docId, d). businessItem docId d)
                (filter (\<lambda>(docId, d). sharesTag T2 d) (businessDocs w)))))
     \<and> ((\<exists>doc\<in>set (businessDocs w). sharesTag T2 (snd doc) \<and> \<not> hasName (snd doc)) \<longrightarrow>
          (\<exists>msg. getMatchingBusinesses lowerCase (JStr []) (JStr []) (JStr (joinTags T2)) w
                    = Json 400 (JObj [(''error'', JStr msg)])))
     \<and> (\<forall>d T1. getProp d ''tags'' = JArr (map JStr T1) \<longrightarrow>
          sharesTag T2 d = (set T1 \<inter> set T2 \<noteq> {}))"
proof -
  define tags where "tags = joinTags T2"
  define clause where "clause = arrayContainsAny ''tags'' (map JStr T2)"
  from assms have split: "str_split CHR '','' tags = T2"
    unfolding tags_def by (intro str_split_joinTags) auto
  from assms have ne: "tags \<noteq> []" unfolding tags_def by (intro joinTags_not_empty) auto
  from assms(3) have items: "list_all (\<lambda>t. t \<noteq> []) T2" by (simp add: list_all_iff)
  have wh: "whereArrayContainsAny ''tags'' (map JStr T2) = Inr clause"
    unfolding clause_def using assms(1,2) by (intro whereArrayContainsAny_accepts) auto
  have cl: "\<And>d. clause d = sharesTag T2 d"
    by (simp add: clause_def arrayContainsAny_sharesTag)
  \<comment> \<open>posts\<close>
  from isPostSearchParameters_tags [of tags] ne items split obtain searchParams where
    pv: "isPostSearchParameters (JObj [(''tags'', JStr tags)]) = Inr (True, searchParams)"
    by auto
  have posts: "getPostsByTag (JStr tags) w
      = Json 200 (JArr (map postItem (filter (\<lambda>doc. sharesTag T2 (snd doc)) (postDocs w))))"
    using pv split wh by (simp add: getPostsByTag_def runQuery_single cl)
  \<comment> \<open>businesses\<close>
  have "tags = [] \<or> list_all (\<lambda>t. t \<noteq> []) (str_split CHR '','' tags)"
    using items split by simp
  from isSearchParameters_strings [OF this] obtain sp where
    v: "isSearchParameters (JObj [(''name'', JStr []), (''city'', JStr []), (''tags'', JStr tags)])
          = Inr (True, sp)" by blast
  have t: "tagsClause (JStr tags) = Inr [clause]"
    using ne split wh by (simp add: tagsClause_def)
  have c: "cityClause lowerCase (JStr []) = Inr []" by (simp add: cityClause_def)
  have cands: "runQuery ([clause] @ []) (businessDocs w)
      = filter (\<lambda>doc. sharesTag T2 (snd doc)) (businessDocs w)"
    by (simp add: runQuery_single cl)
  have named: "getMatchingBusinesses lowerCase (JStr []) (JStr []) (JStr tags) w
            = Json 200 (JArr (map (\<lambda>(docId, d). businessItem docId d)
                (filter (\<lambda>(docId, d). sharesTag T2 d) (businessDocs w))))"
    if all: "\<forall>doc\<in>set (businessDocs w). sharesTag T2 (snd doc) \<longrightarrow> hasName (snd doc)"
  proof -
    from all have n: "\<forall>doc\<in>set (runQuery ([clause] @ []) (businessDocs w)). hasName (snd doc)"
      unfolding cands by simp
    have "filter (\<lambda>(docId, d). nameContains lowerCase [] d)
            (runQuery ([clause] @ []) (businessDocs w))
        = filter (\<lambda>(docId, d). sharesTag T2 d) (businessDocs w)"
      unfolding cands filter_filter
      by (rule filter_cong) (use all in \<open>auto simp: nameContains_empty\<close>)
    with search_answer_named [OF v t c n] show ?thesis by simp
  qed
  have nameless: "\<exists>msg. getMatchingBusinesses lowerCase (JStr []) (JStr []) (JStr tags) w
                    = Json 400 (JObj [(''error'', JStr msg)])"
    if "\<exists>doc\<in>set (businessDocs w). sharesTag T2 (snd doc) \<and> \<not> hasName (snd doc)"
  proof -
    from that have "\<exists>doc\<in>set (runQuery ([clause] @ []) (businessDocs w)). \<not> hasName (snd doc)"
      unfolding cands by force
    from search_answer_nameless [OF v t c this] show ?thesis .
  qed
  from posts named nameless sharesTag_strings show ?thesis
    unfolding tags_def by blast
qed

theorem tag_filter_witness:
  "getPostsByTag (JStr ''blue,green'') postWorld = Json 200 (JArr [postItem (''p1'', taggedPost)])
   \<and> getMatchingBusinesses asciiLowerCase (JStr []) (JStr []) (JStr ''blue,green'') searchWorld
       = Json 200 (JArr [businessItem ''b1'' joesCafe, businessItem ''b2'' bakery])"
proof -
  have a: "[''blue'', ''green''] \<noteq> []" by simp
  have b: "length [''blue'', ''green''] \<le> 10" by simp
  have c: "\<forall>t\<in>set [''blue'', ''green'']. t \<noteq> [] \<and> CHR '','' \<notin> set t" by simp
  have s1: "sharesTag [''blue'', ''green''] joesCafe"
    by (simp add: sharesTag_def joesCafe_def ownProp_def)
  have s2: "sharesTag [''blue'', ''green''] bakery"
    by (simp add: sharesTag_def bakery_def ownProp_def)
  have s3: "sharesTag [''blue'', ''green''] taggedPost"
    by (simp add: sharesTag_def taggedPost_def ownProp_def)
  have s4: "\<not> sharesTag [''blue'', ''green''] (JObj [(''title'', JStr ''Old''), (''tags'', JNull)])"
    by (simp add: sharesTag_def ownProp_def)
  have n: "\<forall>doc\<in>set (businessDocs searchWorld). sharesTag [''blue'', ''green''] (snd doc)
             \<longrightarrow> hasName (snd doc)"
    by (simp add: searchWorld_def joesCafe_def bakery_def ownProp_def hasName_def)
  from tag_filter_is_disjunction [OF a b c, of postWorld asciiLowerCase]
       tag_filter_is_disjunction [OF a b c, of searchWorld asciiLowerCase] n
  show ?thesis
    by (simp add: postWorld_def searchWorld_def s1 s2 s3 s4)
qed

text \<open>
  C7 does not hold for every list of tags: the store refuses a filter of more than ten
  values, and the handlers answer with status 400 although the record shares a tag.
\<close>

theorem eleven_tags_are_refused:
  "sharesTag (str_split CHR '','' elevenTags) taggedPost
   \<and> getPostsByTag (JStr elevenTags) postWorld
       = Json 400 (JObj [(''error'',
           JStr ''Invalid Query. array-contains-any filters support 1 to 10 values.'')])
   \<and> sharesTag (str_split CHR '','' elevenTags) joesCafe
   \<and> getMatchingBusinesses asciiLowerCase (JStr []) (JStr []) (JStr elevenTags) searchWorld
       = Json 400 (JObj [(''error'',
           JStr ''Invalid Query. array-contains-any filters support 1 to 10 values.'')])"
proof -
  have split: "str_split CHR '','' elevenTags
      = [''red'', ''t2'', ''t3'', ''t4'', ''t5'', ''t6'', ''t7'', ''t8'', ''t9'', ''t10'', ''t11'']"
    by (simp add: elevenTags_def)
  have ne: "elevenTags \<noteq> []" by (simp add: elevenTags_def)
  have 1: "sharesTag (str_split CHR '','' elevenTags) taggedPost"
    unfolding split by (simp add: sharesTag_def taggedPost_def ownProp_def)
  have 3: "sharesTag (str_split CHR '','' elevenTags) joesCafe"
    unfolding split by (simp add: sharesTag_def joesCafe_def ownProp_def)
  have 2: "getPostsByTag (JStr elevenTags) postWorld
       = Json 400 (JObj [(''error'',
           JStr ''Invalid Query. array-contains-any filters support 1 to 10 values.'')])"
    using ne
    by (simp add: getPostsByTag_def Let_def split postSearchSchema_def joi_defs
          whereArrayContainsAny_def errorResponse_def)
  have 4: "getMatchingBusinesses asciiLowerCase (JStr []) (JStr []) (JStr elevenTags) searchWorld
       = Json 400 (JObj [(''error'',
           JStr ''Invalid Query. array-contains-any filters support 1 to 10 values.'')])"
    using ne
    by (simp add: getMatchingBusinesses_def Let_def split searchSchema_def joi_defs
          tagsClause_def whereArrayContainsAny_def errorResponse_def)
  from 1 2 3 4 show ?thesis by simp
qed

section \<open>The name filter\<close>



section \<open>Empty and missing criteria\<close>

text \<open>
  C1, as the code has it. A search that carries \<open>name\<close>, \<open>city\<close> and \<open>tags\<close> as strings,
  the tags (when not empty) as at most ten items none of which is empty, over business
  documents that all have a name, succeeds, and a criterion that is the empty string puts
  no condition on the records: the answer is the stored records, in store order, that
  satisfy the criteria that are not empty.
\<close>

theorem empty_criteria_do_not_filter:
  assumes "tags = [] \<or> (list_all (\<lambda>t. t \<noteq> []) (str_split CHR '','' tags)
                          \<and> length (str_split CHR '','' tags) \<le> 10)"
    and "\<forall>doc\<in>set (businessDocs w). hasName (snd doc)"
  shows "getMatchingBusinesses lowerCase (JStr word) (JStr city) (JStr tags) w
     = Json 200 (JArr
         (map (\<lambda>(docId, d). businessItem docId d)
            (filter (\<lambda>(docId, d).
                 (tags \<noteq> [] \<longrightarrow> sharesTag (str_split CHR '','' tags) d)
               \<and> (city \<noteq> [] \<longrightarrow> getProp d ''city'' = JStr (toLowerCase lowerCase city))
               \<and> (word \<noteq> [] \<longrightarrow> nameContains lowerCase word d))
              (businessDocs w))))"
proof -
  define byTags where "byTags = (if tags = [] then []
            else [arrayContainsAny ''tags'' (map JStr (str_split CHR '','' tags))])"
  define byCity where "byCity = (if city = [] then []
            else [fieldEquals ''city'' (JStr (toLowerCase lowerCase city))])"
  from assms(1) have "tags = [] \<or> list_all (\<lambda>t. t \<noteq> []) (str_split CHR '','' tags)" by blast
  from isSearchParameters_strings [OF this] obtain searchParams where
    v: "isSearchParameters (JObj [(''name'', JStr word), (''city'', JStr city), (''tags'', JStr tags)])
             = Inr (True, searchParams)" by blast
  from assms(1) have "tags = [] \<or> length (str_split CHR '','' tags) \<le> 10" by blast
  then have t: "tagsClause (JStr tags) = Inr byTags"
    unfolding byTags_def by (rule tagsClause_strings)
  have c: "cityClause lowerCase (JStr city) = Inr byCity"
    unfolding byCity_def by (rule cityClause_strings)
  have named: "\<forall>doc\<in>set (runQuery (byTags @ byCity) (businessDocs w)). hasName (snd doc)"
    using assms(2) by (auto simp: runQuery_def)
  have r: "getMatchingBusinesses lowerCase (JStr word) (JStr city) (JStr tags) w
       = Json 200 (JArr (map (\<lambda>(docId, d). businessItem docId d)
                 (filter (\<lambda>(docId, d). nameContains lowerCase word d)
                    (runQuery (byTags @ byCity) (businessDocs w)))))"
    by (rule search_answer_named [OF v t c named])
  have blank: "nameContains lowerCase word d"
    if "(docId, d) \<in> set (businessDocs w)" and "word = []" for docId d
  proof -
    from that(1) assms(2) have "hasName d" by force
    with that(2) show ?thesis by (simp add: nameContains_empty)
  qed
  have "filter (\<lambda>(docId, d). nameContains lowerCase word d)
          (runQuery (byTags @ byCity) (businessDocs w))
      = filter (\<lambda>(docId, d).
                 (tags \<noteq> [] \<longrightarrow> sharesTag (str_split CHR '','' tags) d)
               \<and> (city \<noteq> [] \<longrightarrow> getProp d ''city'' = JStr (toLowerCase lowerCase city))
               \<and> (word \<noteq> [] \<longrightarrow> nameContains lowerCase word d))
              (businessDocs w)"
    unfolding runQuery_def filter_filter
    by (rule filter_cong)
       (auto simp: byTags_def byCity_def arrayContainsAny_sharesTag fieldEquals_def dest: blank)
  with r show ?thesis by simp
qed

theorem empty_criteria_witness:
  "getMatchingBusinesses asciiLowerCase (JStr []) (JStr []) (JStr []) searchWorld
     = Json 200 (JArr [businessItem ''b1'' joesCafe, businessItem ''b2'' bakery])
   \<and> getMatchingBusinesses asciiLowerCase (JStr []) (JStr ''Paris'') (JStr ''blue,green'') searchWorld
     = Json 200 (JArr [businessItem ''b1'' joesCafe])"
proof -
  have n: "\<forall>doc\<in>set (businessDocs searchWorld). hasName (snd doc)"
    by (simp add: searchWorld_def joesCafe_def bakery_def ownProp_def hasName_def)
  have t1: "[] = [] \<or> (list_all (\<lambda>t. t \<noteq> []) (str_split CHR '','' [])
                          \<and> length (str_split CHR '','' []) \<le> 10)" by simp
  have t2: "''blue,green'' = [] \<or> (list_all (\<lambda>t. t \<noteq> []) (str_split CHR '','' ''blue,green'')
                          \<and> length (str_split CHR '','' ''blue,green'') \<le> 10)"
    by simp
  have lower: "toLowerCase asciiLowerCase ''Paris'' = ''paris''"
    by (simp add: toLowerCase_def ascii_defs)
  have s1: "sharesTag [''blue'', ''green''] joesCafe"
    by (simp add: sharesTag_def joesCafe_def ownProp_def)
  have s2: "sharesTag [''blue'', ''green''] bakery"
    by (simp add: sharesTag_def bakery_def ownProp_def)
  have c1: "getProp joesCafe ''city'' = JStr ''paris''" by (simp add: joesCafe_def ownProp_def)
  have c2: "getProp bakery ''city'' = JStr ''lyon''" by (simp add: bakery_def ownProp_def)
  from empty_criteria_do_not_filter [OF t1 n, of asciiLowerCase "[]" "[]"]
       empty_criteria_do_not_filter [OF t2 n, of asciiLowerCase "[]" "''Paris''"]
  show ?thesis
    by (simp add: searchWorld_def lower s1 s2 c1 c2)
qed

text \<open>
  C1 does not hold for a criterion that is not there at all: every key of the search
  schema is \<open>required()\<close>, so the request is rejected.
\<close>

lemma missing_criterion_rejected:
  assumes "name = JUndefined \<or> city = JUndefined \<or> tags = JUndefined"
  shows "\<exists>msg. getMatchingBusinesses lowerCase name city tags w
                  = Json 400 (JObj [(''error'', JStr msg)])"
proof -
  have "\<exists>e. isSearchParameters (JObj [(''name'', name), (''city'', city), (''tags'', tags)]) = Inl e
      \<or> (\<exists>sp. isSearchParameters (JObj [(''name'', name), (''city'', city), (''tags'', tags)]) = Inr (False, sp))"
    using assms
    by (cases tags) (auto simp: ownProp_def Let_def searchSchema_triple required_def)
  then show ?thesis
    by (auto simp: getMatchingBusinesses_def errorResponse_def)
qed

theorem missing_name_is_rejected:
  "getMatchingBusinesses asciiLowerCase JUndefined (JStr ''paris'') (JStr []) searchWorld
     = Json 400 (JObj [(''error'', JStr ''The query parameters provided are not valid or acceptable.'')])
   \<and> getMatchingBusinesses asciiLowerCase (JStr ''cafe'') JUndefined (JStr []) searchWorld
     = Json 400 (JObj [(''error'', JStr ''The query parameters provided are not valid or acceptable.'')])
   \<and> getMatchingBusinesses asciiLowerCase (JStr ''cafe'') (JStr ''paris'') JUndefined searchWorld
     = Json 400 (JObj [(''error'', JStr ''The query parameters provided are not valid or acceptable.'')])"
  by (simp add: getMatchingBusinesses_def ownProp_def Let_def searchSchema_triple required_def
        errorResponse_def invalidQuery_def)

section \<open>What the search validator does to its candidate\<close>

text \<open>
  C4, as the code has it. For a candidate object whose \<open>tags\<close> is falsy (not there,
  \<open>null\<close>, empty) or a string, \<open>isSearchParameters\<close> returns a boolean, the answer of the
  schema, without throwing; it leaves the candidate as it is when \<open>tags\<close> is falsy, and
  otherwise replaces \<open>tags\<close> by the comma-split sequence and leaves every other property
  as it is.
\<close>

theorem search_validator_effect:
  assumes "ownProp kvs ''tags'' = tags" and "\<not> truthy tags \<or> (\<exists>s. tags = JStr s)"
  shows "\<exists>valid kvs'.
           isSearchParameters (JObj kvs) = Inr (valid, JObj kvs')
         \<and> valid = searchSchema (JObj kvs')
         \<and> ownProp kvs' ''tags''
             = (if truthy tags
                then (case tags of JStr s \<Rightarrow> JArr (map JStr (str_split CHR '','' s)) | v \<Rightarrow> v)
                else tags)
         \<and> (\<forall>k. k \<noteq> ''tags'' \<longrightarrow> ownProp kvs' k = ownProp kvs k)
         \<and> (\<not> truthy tags \<longrightarrow> kvs' = kvs)"
proof (cases "truthy tags")
  case False
  with assms(1) have "isSearchParameters (JObj kvs) = Inr (searchSchema (JObj kvs), JObj kvs)"
    by simp
  with False assms(1) show ?thesis by auto
next
  case True
  with assms(2) obtain s where s: "tags = JStr s" by blast
  define kvs' where "kvs' = AList.update ''tags'' (JArr (map JStr (str_split CHR '','' s))) kvs"
  from True s assms(1)
  have "isSearchParameters (JObj kvs) = Inr (searchSchema (JObj kvs'), JObj kvs')"
    by (simp add: kvs'_def Let_def)
  moreover have "ownProp kvs' ''tags'' = JArr (map JStr (str_split CHR '','' s))"
    by (simp add: kvs'_def ownProp_update_same)
  moreover have "\<forall>k. k \<noteq> ''tags'' \<longrightarrow> ownProp kvs' k = ownProp kvs k"
    by (simp add: kvs'_def ownProp_update_other)
  ultimately show ?thesis using True s by auto
qed

theorem search_validator_effect_witness:
  "isSearchParameters (JObj [(''name'', JStr ''cafe''), (''city'', JStr []), (''tags'', JStr [])])
     = Inr (True, JObj [(''name'', JStr ''cafe''), (''city'', JStr []), (''tags'', JStr [])])"
proof -
  have a: "ownProp [(''name'', JStr ''cafe''), (''city'', JStr []), (''tags'', JStr [])] ''tags'' = JStr []"
    by (simp add: ownProp_def)
  have b: "\<not> truthy (JStr []) \<or> (\<exists>s. JStr [] = JStr s)" by simp
  from search_validator_effect [OF a b]
  show ?thesis
    by (auto simp: searchSchema_triple string_criterion) (simp add: joi_defs)
qed

text \<open>
  C4 does not hold for the search validator: a non-empty \<open>tags\<close> string is replaced in
  the candidate, and a \<open>tags\<close> that is an array (a repeated query parameter) makes it
  throw.
\<close>

theorem search_validator_changes_candidate:
  "isSearchParameters (JObj [(''name'', JStr ''cafe''), (''city'', JStr []), (''tags'', JStr ''red,blue'')])
     = Inr (True, JObj [(''name'', JStr ''cafe''), (''city'', JStr []),
                        (''tags'', JArr [JStr ''red'', JStr ''blue''])])
   \<and> JObj [(''name'', JStr ''cafe''), (''city'', JStr []), (''tags'', JArr [JStr ''red'', JStr ''blue''])]
       \<noteq> JObj [(''name'', JStr ''cafe''), (''city'', JStr []), (''tags'', JStr ''red,blue'')]
   \<and> isSearchParameters
       (JObj [(''name'', JStr ''cafe''), (''city'', JStr []), (''tags'', JArr [JStr ''red'', JStr ''blue''])])
     = Inl (TypeError ''searchParams.tags.split is not a function'')"
  by (simp add: ownProp_def Let_def searchSchema_triple string_criterion joi_defs)

section \<open>Featured-image upload\<close>

lemmas path_defs = basename_def stripTrailingSlashes_def extname_def parse_name_def basename_ext_def

text \<open>For a base name with one dot the stored name is as the specification has it.\<close>

lemma upload_name_one_dot:
  assumes "isCollectionId (JStr businessId)" and "isFilePath localFilePath"
    and "localFile localFilePath"
    and "basename localFilePath = base @ CHR ''.'' # ext"
    and "CHR ''.'' \<notin> set base" and "CHR ''.'' \<notin> set ext"
  shows "bucket (snd (uploadBusinessFeatImage localFile getSignedUrl businessId localFilePath w))
     = (if ''business/'' @ businessId @ ''/'' @ base @ ''-feat.'' @ ext \<in> set (bucket w)
        then bucket w
        else bucket w @ [''business/'' @ businessId @ ''/'' @ base @ ''-feat.'' @ ext])"
proof -
  have "str_split CHR ''.'' (basename localFilePath) = [base, ext]"
    using assms(4-6) by (simp add: str_split_append str_split_no_separator)
  with assms(1-3) show ?thesis
    by (simp add: uploadBusinessFeatImage_def uploadFileToFolder_def Let_def split: sum.splits)
qed

text \<open>
  C5. The upload takes the first two parts of the base name split at every dot. For
  \<open>photo.png\<close> the stored object is \<open>photo-feat.png\<close> in the folder of the business, and
  the lookup finds it; for \<open>my.photo.png\<close> the stored object is \<open>my-feat.photo\<close>: the
  extension \<open>png\<close> is lost.
\<close>

theorem upload_loses_extension:
  "uploadBusinessFeatImage (\<lambda>p. True) exampleSign exampleId ''/tmp/my.photo.png'' noDocumentWorld
     = (Json 200 (JObj [(''fileURL'', JStr ''signed:business/abcdefghij0123456789/my-feat.photo'')]),
        noDocumentWorld\<lparr>bucket := [''business/abcdefghij0123456789/my-feat.photo'']\<rparr>)"
  using exampleId_valid
  by (simp add: uploadBusinessFeatImage_def isFilePath_def isSeparator_def char_defs path_defs
        uploadFileToFolder_def exampleSign_def noDocumentWorld_def exampleId_def Let_def)

lemma upload_photo_example:
  "uploadBusinessFeatImage (\<lambda>p. True) exampleSign exampleId ''/tmp/photo.png'' noDocumentWorld
     = (Json 200 (JObj [(''fileURL'', JStr ''signed:business/abcdefghij0123456789/photo-feat.png'')]),
        noDocumentWorld\<lparr>bucket := [''business/abcdefghij0123456789/photo-feat.png'']\<rparr>)
   \<and> findFeatImageFile (''business/'' @ exampleId @ ''/'')
        (noDocumentWorld\<lparr>bucket := [''business/abcdefghij0123456789/photo-feat.png'']\<rparr>)
     = Inr ''business/abcdefghij0123456789/photo-feat.png''"
  using exampleId_valid
  by (simp add: uploadBusinessFeatImage_def isFilePath_def isSeparator_def char_defs path_defs
        uploadFileToFolder_def exampleSign_def noDocumentWorld_def exampleId_def Let_def
        findFeatImageFile_def getFiles_def endsWith_def)
end
